theory Spec2Isabelle
  imports Complex_Main "HOL-Library.Stream"
begin

section \<open>Scalars\<close>

text \<open>
  The encoder of \<^verbatim>\<open>transformer.cpp\<close> is a template over \<^verbatim>\<open>Scalar\<close>; its
  temporaries \<^verbatim>\<open>sum_exp\<close>, \<^verbatim>\<open>mean\<close> and \<^verbatim>\<open>var\<close> are \<^verbatim>\<open>Eigen::VectorXd\<close>, so the
  scalar type is read as IEEE-754 binary64. A scalar is a finite real, one of the two
  infinities, or NaN. Operations on the special values follow IEEE-754; a finite result
  is kept exact while it lies within the finite range and overflows to an infinity
  beyond it. The exponential underflows to zero. Rounding inside the range, the
  underflow of the arithmetic operations and the sign of zero are not part of the model.
\<close>

datatype scalar = Fin real | PInf | NInf | NaN

definition max_finite :: real where
  "max_finite = (2 - 1 / 2 ^ 52) * 2 ^ 1023"

definition rnd :: "real \<Rightarrow> scalar" where
  "rnd r = (if max_finite < r then PInf else if r < - max_finite then NInf else Fin r)"

fun s_neg :: "scalar \<Rightarrow> scalar" where
  "s_neg (Fin a) = Fin (- a)"
| "s_neg PInf = NInf"
| "s_neg NInf = PInf"
| "s_neg NaN = NaN"

fun s_add :: "scalar \<Rightarrow> scalar \<Rightarrow> scalar" where
  "s_add (Fin a) (Fin b) = rnd (a + b)"
| "s_add (Fin a) PInf = PInf"
| "s_add (Fin a) NInf = NInf"
| "s_add PInf (Fin b) = PInf"
| "s_add PInf PInf = PInf"
| "s_add PInf NInf = NaN"
| "s_add NInf (Fin b) = NInf"
| "s_add NInf PInf = NaN"
| "s_add NInf NInf = NInf"
| "s_add NaN y = NaN"
| "s_add x NaN = NaN"

definition s_sub :: "scalar \<Rightarrow> scalar \<Rightarrow> scalar" where
  "s_sub x y = s_add x (s_neg y)"

fun s_mul :: "scalar \<Rightarrow> scalar \<Rightarrow> scalar" where
  "s_mul (Fin a) (Fin b) = rnd (a * b)"
| "s_mul (Fin a) PInf = (if a = 0 then NaN else if 0 < a then PInf else NInf)"
| "s_mul (Fin a) NInf = (if a = 0 then NaN else if 0 < a then NInf else PInf)"
| "s_mul PInf (Fin b) = (if b = 0 then NaN else if 0 < b then PInf else NInf)"
| "s_mul NInf (Fin b) = (if b = 0 then NaN else if 0 < b then NInf else PInf)"
| "s_mul PInf PInf = PInf"
| "s_mul PInf NInf = NInf"
| "s_mul NInf PInf = NInf"
| "s_mul NInf NInf = PInf"
| "s_mul NaN y = NaN"
| "s_mul x NaN = NaN"

fun s_div :: "scalar \<Rightarrow> scalar \<Rightarrow> scalar" where
  "s_div (Fin a) (Fin b) =
     (if b = 0 then (if a = 0 then NaN else if 0 < a then PInf else NInf)
      else rnd (a / b))"
| "s_div (Fin a) PInf = Fin 0"
| "s_div (Fin a) NInf = Fin 0"
| "s_div PInf (Fin b) = (if 0 \<le> b then PInf else NInf)"
| "s_div NInf (Fin b) = (if 0 \<le> b then NInf else PInf)"
| "s_div PInf PInf = NaN"
| "s_div PInf NInf = NaN"
| "s_div NInf PInf = NaN"
| "s_div NInf NInf = NaN"
| "s_div NaN y = NaN"
| "s_div x NaN = NaN"

text \<open>
  \<^verbatim>\<open>std::exp\<close>: a value of at most half the smallest subnormal number, \<open>2\<^sup>-\<^sup>1\<^sup>0\<^sup>7\<^sup>5\<close>,
  is returned as zero (arguments below about \<open>-745.13\<close>).
\<close>

definition exp_underflow :: real where
  "exp_underflow = 1 / 2 ^ 1075"

fun s_exp :: "scalar \<Rightarrow> scalar" where
  "s_exp (Fin a) = (if exp a \<le> exp_underflow then Fin 0 else rnd (exp a))"
| "s_exp PInf = PInf"
| "s_exp NInf = Fin 0"
| "s_exp NaN = NaN"

fun s_sqrt :: "scalar \<Rightarrow> scalar" where
  "s_sqrt (Fin a) = (if a < 0 then NaN else Fin (sqrt a))"
| "s_sqrt PInf = PInf"
| "s_sqrt NInf = NaN"
| "s_sqrt NaN = NaN"


text \<open>Sequential accumulation of \<open>f 0, ..., f (n - 1)\<close>, starting from zero.\<close>

primrec s_sum :: "(nat \<Rightarrow> scalar) \<Rightarrow> nat \<Rightarrow> scalar" where
  "s_sum f 0 = Fin 0"
| "s_sum f (Suc n) = s_add (s_sum f n) (f n)"

section \<open>Dense matrices\<close>

text \<open>
  An \<^verbatim>\<open>Eigen::Matrix<Scalar, Dynamic, Dynamic>\<close>: its two run-time dimensions and its
  coefficients. Only the coefficients \<open>coeff m i j\<close> with \<open>i < rows m\<close> and
  \<open>j < cols m\<close> belong to the matrix. A vector is a matrix of one column.
\<close>

record matrix =
  rows :: nat
  cols :: nat
  coeff :: "nat \<Rightarrow> nat \<Rightarrow> scalar"

text \<open>
  Eigen checks the dimensions of its operands with assertions that abort the program; the
  build line of the file's header does not disable them, and the class constructor uses
  \<^verbatim>\<open>assert\<close> itself. Each such abort is an error value.
\<close>

datatype error =
    DivideByZero
  | ConstructorAssert
  | InvalidProduct
  | SizesDiffer
  | BlockOutOfRange

definition bindE :: "error + 'a \<Rightarrow> ('a \<Rightarrow> error + 'b) \<Rightarrow> error + 'b" where
  "bindE m f = (case m of Inl e \<Rightarrow> Inl e | Inr v \<Rightarrow> f v)"

definition mat_of_rows :: "nat \<Rightarrow> nat \<Rightarrow> scalar list list \<Rightarrow> matrix" where
  "mat_of_rows r c xss = \<lparr>rows = r, cols = c, coeff = (\<lambda>i j. xss ! i ! j)\<rparr>"

definition zero_matrix :: "nat \<Rightarrow> nat \<Rightarrow> matrix" where
  "zero_matrix r c = \<lparr>rows = r, cols = c, coeff = (\<lambda>i j. Fin 0)\<rparr>"

definition transpose_m :: "matrix \<Rightarrow> matrix" where
  "transpose_m a = \<lparr>rows = cols a, cols = rows a, coeff = (\<lambda>i j. coeff a j i)\<rparr>"

definition mat_mul :: "matrix \<Rightarrow> matrix \<Rightarrow> error + matrix" where
  "mat_mul a b =
     (if cols a \<noteq> rows b then Inl InvalidProduct
      else Inr \<lparr>rows = rows a, cols = cols b,
                coeff = (\<lambda>i j. s_sum (\<lambda>k. s_mul (coeff a i k) (coeff b k j)) (cols a))\<rparr>)"

definition mat_div_scalar :: "matrix \<Rightarrow> scalar \<Rightarrow> matrix" where
  "mat_div_scalar a s = a\<lparr>coeff := (\<lambda>i j. s_div (coeff a i j) s)\<rparr>"

text \<open>The sum \<^verbatim>\<open>a + b\<close>, and \<^verbatim>\<open>a += b\<close>: every coefficient of \<open>a\<close> receives its sum.\<close>

definition mat_add :: "matrix \<Rightarrow> matrix \<Rightarrow> error + matrix" where
  "mat_add a b =
     (if rows a \<noteq> rows b \<or> cols a \<noteq> cols b then Inl SizesDiffer
      else Inr (a\<lparr>coeff := (\<lambda>i j.
             if i < rows a \<and> j < cols a then s_add (coeff a i j) (coeff b i j)
             else coeff a i j)\<rparr>))"

definition unaryExpr :: "(scalar \<Rightarrow> scalar) \<Rightarrow> matrix \<Rightarrow> matrix" where
  "unaryExpr f a = a\<lparr>coeff := (\<lambda>i j. f (coeff a i j))\<rparr>"

definition rowwise_sum :: "matrix \<Rightarrow> matrix" where
  "rowwise_sum a = \<lparr>rows = rows a, cols = 1, coeff = (\<lambda>i j. s_sum (coeff a i) (cols a))\<rparr>"

text \<open>\<^verbatim>\<open>a.array().colwise() / v.array()\<close>: row \<open>i\<close> of \<open>a\<close> is divided by \<open>v(i)\<close>.\<close>

definition colwise_div :: "matrix \<Rightarrow> matrix \<Rightarrow> error + matrix" where
  "colwise_div a v =
     (if rows v \<noteq> rows a \<or> cols v \<noteq> 1 then Inl SizesDiffer
      else Inr (a\<lparr>coeff := (\<lambda>i j. s_div (coeff a i j) (coeff v i 0))\<rparr>))"

section \<open>Scaled dot-product attention\<close>

text \<open>Line 44: \<^verbatim>\<open>scores = Q * K.transpose() / std::sqrt(static_cast<Scalar>(d_k))\<close>.\<close>

definition attention_scores :: "matrix \<Rightarrow> matrix \<Rightarrow> error + matrix" where
  "attention_scores Q K =
     bindE (mat_mul Q (transpose_m K))
       (\<lambda>p. Inr (mat_div_scalar p (s_sqrt (Fin (real (cols Q))))))"

text \<open>Lines 46 to 49: the mask, when the pointer is not null, is added to the scores.\<close>

definition apply_mask :: "matrix \<Rightarrow> matrix option \<Rightarrow> error + matrix" where
  "apply_mask scores msk =
     (case msk of None \<Rightarrow> Inr scores | Some m \<Rightarrow> mat_add scores m)"

text \<open>Lines 52 to 54: exponentials, their row sums, and the quotient.\<close>

definition softmax :: "matrix \<Rightarrow> error + matrix" where
  "softmax scores =
     (let exp_scores = unaryExpr s_exp scores;
          sum_exp = rowwise_sum exp_scores
      in colwise_div exp_scores sum_exp)"

definition attention_weights :: "matrix \<Rightarrow> matrix \<Rightarrow> matrix option \<Rightarrow> error + matrix" where
  "attention_weights Q K msk =
     bindE (attention_scores Q K) (\<lambda>s. bindE (apply_mask s msk) softmax)"

definition scaled_dot_product_attention ::
    "matrix \<Rightarrow> matrix \<Rightarrow> matrix \<Rightarrow> matrix option \<Rightarrow> error + matrix" where
  "scaled_dot_product_attention Q K V msk =
     bindE (attention_weights Q K msk) (\<lambda>attn. mat_mul attn V)"

section \<open>Blocks, loops over heads\<close>

text \<open>\<^verbatim>\<open>a.block(r0, c0, nr, nc)\<close> read as a value.\<close>

definition block :: "matrix \<Rightarrow> nat \<Rightarrow> nat \<Rightarrow> nat \<Rightarrow> nat \<Rightarrow> error + matrix" where
  "block a r0 c0 nr nc =
     (if rows a < r0 + nr \<or> cols a < c0 + nc then Inl BlockOutOfRange
      else Inr \<lparr>rows = nr, cols = nc, coeff = (\<lambda>i j. coeff a (r0 + i) (c0 + j))\<rparr>)"

text \<open>\<^verbatim>\<open>a.block(r0, c0, nr, nc) = src\<close>.\<close>

definition assign_block ::
    "matrix \<Rightarrow> nat \<Rightarrow> nat \<Rightarrow> nat \<Rightarrow> nat \<Rightarrow> matrix \<Rightarrow> error + matrix" where
  "assign_block a r0 c0 nr nc src =
     (if rows a < r0 + nr \<or> cols a < c0 + nc then Inl BlockOutOfRange
      else if rows src \<noteq> nr \<or> cols src \<noteq> nc then Inl SizesDiffer
      else Inr (a\<lparr>coeff := (\<lambda>i j.
             if r0 \<le> i \<and> i < r0 + nr \<and> c0 \<le> j \<and> j < c0 + nc
             then coeff src (i - r0) (j - c0) else coeff a i j)\<rparr>))"

text \<open>
  \<^verbatim>\<open>Matrix(r, c)\<close> allocates its coefficients without initialising them. The model
  holds NaN there; the constructors and the forward pass overwrite every coefficient
  of such a matrix before it is read.
\<close>

definition uninitialized :: "nat \<Rightarrow> nat \<Rightarrow> matrix" where
  "uninitialized r c = \<lparr>rows = r, cols = c, coeff = (\<lambda>i j. NaN)\<rparr>"

fun mapE :: "('a \<Rightarrow> error + 'b) \<Rightarrow> 'a list \<Rightarrow> error + 'b list" where
  "mapE f [] = Inr []"
| "mapE f (x # xs) = bindE (f x) (\<lambda>y. bindE (mapE f xs) (\<lambda>ys. Inr (y # ys)))"

fun foldE :: "('a \<Rightarrow> 'b \<Rightarrow> error + 'b) \<Rightarrow> 'a list \<Rightarrow> 'b \<Rightarrow> error + 'b" where
  "foldE f [] s = Inr s"
| "foldE f (x # xs) s = bindE (f x s) (foldE f xs)"

section \<open>Weight initialisation\<close>

text \<open>
  \<^verbatim>\<open>uniform_init\<close> owns a function-local \<^verbatim>\<open>static std::mt19937\<close>, seeded once from
  \<^verbatim>\<open>std::random_device\<close>. The engine of the standard library is not part of the
  repository: its state is modelled by the sequence of canonical variates of \<open>[0, 1)\<close>
  that it is going to deliver from now on. The state is threaded explicitly through
  every call. \<^verbatim>\<open>std::uniform_real_distribution(a, b)\<close> maps a variate \<open>u\<close> to
  \<open>u * (b - a) + a\<close>.
\<close>

type_synonym engine = "real stream"

definition dist :: "scalar \<Rightarrow> engine \<Rightarrow> scalar \<times> engine" where
  "dist init_range g =
     (s_add (s_mul (Fin (shd g)) (s_sub init_range (s_neg init_range))) (s_neg init_range),
      stl g)"

definition set_coeff :: "matrix \<Rightarrow> nat \<Rightarrow> nat \<Rightarrow> scalar \<Rightarrow> matrix" where
  "set_coeff m i j v = m\<lparr>coeff := (\<lambda>i' j'. if i' = i \<and> j' = j then v else coeff m i' j')\<rparr>"

definition uniform_init_row :: "scalar \<Rightarrow> nat \<Rightarrow> matrix \<times> engine \<Rightarrow> matrix \<times> engine" where
  "uniform_init_row init_range i s =
     fold (\<lambda>j (m, g). let (v, g') = dist init_range g in (set_coeff m i j v, g'))
       [0..<cols (fst s)] s"

definition uniform_init :: "matrix \<Rightarrow> scalar \<Rightarrow> engine \<Rightarrow> matrix \<times> engine" where
  "uniform_init m init_range g =
     fold (uniform_init_row init_range) [0..<rows m] (m, g)"

definition default_init_range :: scalar where
  "default_init_range = Fin (1 / 10)"

section \<open>Multi-head attention\<close>

record MultiHeadAttention =
  mha_d_model :: nat
  num_heads :: nat
  d_k :: nat
  d_v :: nat
  W_Q :: matrix
  W_K :: matrix
  W_V :: matrix
  W_O :: matrix

text \<open>
  The member initialisers divide by \<^verbatim>\<open>num_heads\<close> before the body asserts the
  divisibility. Dimensions are natural numbers: Eigen rejects a negative size.
\<close>

definition MultiHeadAttention_ctor ::
    "nat \<Rightarrow> nat \<Rightarrow> engine \<Rightarrow> error + (MultiHeadAttention \<times> engine)" where
  "MultiHeadAttention_ctor d_model n_heads g =
     (if n_heads = 0 then Inl DivideByZero
      else if d_model mod n_heads \<noteq> 0 then Inl ConstructorAssert
      else
        let (wq, g1) = uniform_init (uninitialized d_model d_model) default_init_range g;
            (wk, g2) = uniform_init (uninitialized d_model d_model) default_init_range g1;
            (wv, g3) = uniform_init (uninitialized d_model d_model) default_init_range g2;
            (wo, g4) = uniform_init (uninitialized d_model d_model) default_init_range g3
        in Inr (\<lparr>mha_d_model = d_model, num_heads = n_heads,
                  d_k = d_model div n_heads, d_v = d_model div n_heads,
                  W_Q = wq, W_K = wk, W_V = wv, W_O = wo\<rparr>, g4))"

text \<open>Lines 93 to 95.\<close>

definition project :: "MultiHeadAttention \<Rightarrow> matrix \<Rightarrow> error + (matrix \<times> matrix \<times> matrix)" where
  "project a x =
     bindE (mat_mul x (W_Q a)) (\<lambda>Q.
     bindE (mat_mul x (W_K a)) (\<lambda>K.
     bindE (mat_mul x (W_V a)) (\<lambda>V. Inr (Q, K, V))))"

text \<open>
  Lines 98 to 103: the three vectors \<^verbatim>\<open>Q_heads\<close>, \<^verbatim>\<open>K_heads\<close>, \<^verbatim>\<open>V_heads\<close> are filled
  by one loop; entry \<open>h\<close> of the list below holds entry \<open>h\<close> of each.
\<close>

definition split_heads ::
    "MultiHeadAttention \<Rightarrow> nat \<Rightarrow> matrix \<times> matrix \<times> matrix
       \<Rightarrow> error + (matrix \<times> matrix \<times> matrix) list" where
  "split_heads a seq_len QKV =
     (case QKV of (Q, K, V) \<Rightarrow>
        mapE (\<lambda>h.
          bindE (block Q 0 (h * d_k a) seq_len (d_k a)) (\<lambda>q.
          bindE (block K 0 (h * d_k a) seq_len (d_k a)) (\<lambda>k.
          bindE (block V 0 (h * d_v a) seq_len (d_v a)) (\<lambda>v. Inr (q, k, v)))))
          [0..<num_heads a])"

text \<open>Lines 106 to 109.\<close>

definition attend_heads ::
    "(matrix \<times> matrix \<times> matrix) list \<Rightarrow> matrix option \<Rightarrow> error + matrix list" where
  "attend_heads heads msk =
     mapE (\<lambda>(q, k, v). scaled_dot_product_attention q k v msk) heads"

text \<open>Lines 112 to 115.\<close>

definition concat_heads :: "MultiHeadAttention \<Rightarrow> nat \<Rightarrow> matrix list \<Rightarrow> error + matrix" where
  "concat_heads a seq_len head_outputs =
     foldE (\<lambda>h c. assign_block c 0 (h * d_k a) seq_len (d_k a) (head_outputs ! h))
       [0..<num_heads a] (uninitialized seq_len (mha_d_model a))"

definition MultiHeadAttention_call ::
    "MultiHeadAttention \<Rightarrow> matrix \<Rightarrow> matrix option \<Rightarrow> error + matrix" where
  "MultiHeadAttention_call a x msk =
     bindE (project a x) (\<lambda>QKV.
     bindE (split_heads a (rows x) QKV) (\<lambda>heads.
     bindE (attend_heads heads msk) (\<lambda>head_outputs.
     bindE (concat_heads a (rows x) head_outputs) (\<lambda>c.
     mat_mul c (W_O a)))))"

section \<open>Layer normalisation\<close>

text \<open>
  The broadcasts of Eigen, as \<^verbatim>\<open>LayerNorm::operator()\<close> types them.
  \<^item> \<^verbatim>\<open>a.rowwise() - v.transpose()\<close> and \<^verbatim>\<open>a.array().rowwise() * v.transpose().array()\<close>
    spread the row vector \<open>v\<^sup>T\<close> along every row of \<open>a\<close>: \<open>v\<close> needs one entry per
    column of \<open>a\<close>, and entry \<open>j\<close> of \<open>v\<close> meets column \<open>j\<close>.
  \<^item> \<^verbatim>\<open>a.array().colwise() / v.array()\<close> spreads \<open>v\<close> along every column: one entry per
    row of \<open>a\<close>, entry \<open>i\<close> meets row \<open>i\<close>.
  \<^item> A sum of two arrays without \<^verbatim>\<open>rowwise()\<close> is coefficient-wise and needs equal shapes.
  The vector \<^verbatim>\<open>mean\<close> of line 175 has one entry per row of \<open>x\<close>. Line 176 subtracts it
  with \<^verbatim>\<open>x.rowwise()\<close>, so the expression asserts \<open>seq_len = d_model\<close> and removes the
  mean of row \<open>j\<close> from column \<open>j\<close>. Line 179 adds \<^verbatim>\<open>beta_.transpose().array()\<close>, of the
  shape \<open>[1, d_model]\<close>, to an array of the shape \<open>[seq_len, d_model]\<close> and asserts
  \<open>seq_len = 1\<close>.
\<close>

definition rowwise_sub :: "matrix \<Rightarrow> matrix \<Rightarrow> error + matrix" where
  "rowwise_sub a v =
     (if rows v \<noteq> cols a \<or> cols v \<noteq> 1 then Inl SizesDiffer
      else Inr (a\<lparr>coeff := (\<lambda>i j. s_sub (coeff a i j) (coeff v j 0))\<rparr>))"

definition rowwise_mul :: "matrix \<Rightarrow> matrix \<Rightarrow> error + matrix" where
  "rowwise_mul a v =
     (if rows v \<noteq> cols a \<or> cols v \<noteq> 1 then Inl SizesDiffer
      else Inr (a\<lparr>coeff := (\<lambda>i j. s_mul (coeff a i j) (coeff v j 0))\<rparr>))"

text \<open>\<^verbatim>\<open>a.rowwise().mean()\<close>: the row sum divided by the number of columns.\<close>

definition rowwise_mean :: "matrix \<Rightarrow> matrix" where
  "rowwise_mean a =
     \<lparr>rows = rows a, cols = 1,
      coeff = (\<lambda>i j. s_div (s_sum (coeff a i) (cols a)) (Fin (real (cols a))))\<rparr>"

definition square :: "scalar \<Rightarrow> scalar" where
  "square v = s_mul v v"

definition setOnes :: "matrix \<Rightarrow> matrix" where
  "setOnes a = a\<lparr>coeff := (\<lambda>i j. Fin 1)\<rparr>"

definition setZero :: "matrix \<Rightarrow> matrix" where
  "setZero a = a\<lparr>coeff := (\<lambda>i j. Fin 0)\<rparr>"

record LayerNorm =
  ln_d_model :: nat
  eps :: scalar
  gamma :: matrix
  beta :: matrix

definition LayerNorm_ctor :: "nat \<Rightarrow> scalar \<Rightarrow> LayerNorm" where
  "LayerNorm_ctor d_model e =
     \<lparr>ln_d_model = d_model, eps = e,
      gamma = setOnes (uninitialized d_model 1), beta = setZero (uninitialized d_model 1)\<rparr>"

definition default_eps :: scalar where
  "default_eps = Fin (1 / 100000)"

text \<open>Line 175: \<^verbatim>\<open>mean = x.rowwise().mean()\<close>.\<close>

definition row_mean :: "matrix \<Rightarrow> matrix" where
  "row_mean x = rowwise_mean x"

text \<open>\<^verbatim>\<open>x.rowwise() - mean.transpose()\<close>, in lines 176 and 178.\<close>

definition centered :: "matrix \<Rightarrow> error + matrix" where
  "centered x = rowwise_sub x (row_mean x)"

text \<open>Line 176: \<^verbatim>\<open>var\<close>, the mean of the squares of each row of that difference.\<close>

definition row_var :: "matrix \<Rightarrow> error + matrix" where
  "row_var x = bindE (centered x) (\<lambda>c. Inr (rowwise_mean (unaryExpr square c)))"

text \<open>Line 178: \<^verbatim>\<open>(var.array() + eps_).sqrt()\<close>, one denominator per row.\<close>

definition denominators :: "LayerNorm \<Rightarrow> matrix \<Rightarrow> error + matrix" where
  "denominators l x =
     bindE (row_var x) (\<lambda>var. Inr (unaryExpr (\<lambda>v. s_sqrt (s_add v (eps l))) var))"

text \<open>Lines 175 to 179.\<close>

definition LayerNorm_call :: "LayerNorm \<Rightarrow> matrix \<Rightarrow> error + matrix" where
  "LayerNorm_call l x =
     bindE (denominators l x) (\<lambda>den.
     bindE (centered x) (\<lambda>c.
     bindE (colwise_div c den) (\<lambda>norm.
     bindE (rowwise_mul norm (gamma l)) (\<lambda>scaled.
     mat_add scaled (transpose_m (beta l))))))"

text \<open>
  \<^verbatim>\<open>FeedForward::operator()\<close> has no model, and so has none
  \<^verbatim>\<open>TransformerEncoderBlock::operator()\<close>, which calls it: lines 148 and 149 multiply
  a matrix and \<^verbatim>\<open>W1_.rowwise()\<close>, a \<^verbatim>\<open>VectorwiseOp\<close>, and Eigen defines no such
  product. The expression has no value to translate.
\<close>

section \<open>The steps of a forward pass of the attention\<close>

text \<open>
  The same calls with a log of the statements that have completed. Each statement
  evaluates its expression into a matrix before the next one starts; a statement that
  aborts leaves the log as it found it. The loop that cuts the heads (lines 98 to 103)
  and the loop that joins them (lines 112 to 115) are logged once, when they complete;
  the attention of line 108 logs its own statements, head after head.
\<close>

datatype step =
    QueryProjection
  | KeyProjection
  | ValueProjection
  | HeadSplit
  | ScoreProduct
  | MaskAddition
  | Softmax
  | WeightedSum
  | Concatenation
  | OutputProjection

type_synonym 'a logged = "step list \<times> (error + 'a)"

definition perform :: "step \<Rightarrow> error + 'a \<Rightarrow> 'a logged" where
  "perform s r = (case r of Inl e \<Rightarrow> ([], Inl e) | Inr v \<Rightarrow> ([s], Inr v))"

definition bindL :: "'a logged \<Rightarrow> ('a \<Rightarrow> 'b logged) \<Rightarrow> 'b logged" where
  "bindL m f =
     (case m of
        (l, Inl e) \<Rightarrow> (l, Inl e)
      | (l, Inr v) \<Rightarrow> (case f v of (l', r) \<Rightarrow> (l @ l', r)))"

fun mapL :: "('a \<Rightarrow> 'b logged) \<Rightarrow> 'a list \<Rightarrow> 'b list logged" where
  "mapL f [] = ([], Inr [])"
| "mapL f (x # xs) = bindL (f x) (\<lambda>y. bindL (mapL f xs) (\<lambda>ys. ([], Inr (y # ys))))"

text \<open>Lines 44 to 56, statement by statement.\<close>

definition attention_steps ::
    "matrix \<Rightarrow> matrix \<Rightarrow> matrix \<Rightarrow> matrix option \<Rightarrow> matrix logged" where
  "attention_steps Q K V msk =
     bindL (perform ScoreProduct (attention_scores Q K)) (\<lambda>s.
     bindL (case msk of None \<Rightarrow> ([], Inr s)
            | Some m \<Rightarrow> perform MaskAddition (apply_mask s (Some m))) (\<lambda>s'.
     bindL (perform Softmax (softmax s')) (\<lambda>w.
     perform WeightedSum (mat_mul w V))))"

text \<open>Lines 90 to 118, statement by statement.\<close>

definition MultiHeadAttention_steps ::
    "MultiHeadAttention \<Rightarrow> matrix \<Rightarrow> matrix option \<Rightarrow> matrix logged" where
  "MultiHeadAttention_steps a x msk =
     bindL (perform QueryProjection (mat_mul x (W_Q a))) (\<lambda>Q.
     bindL (perform KeyProjection (mat_mul x (W_K a))) (\<lambda>K.
     bindL (perform ValueProjection (mat_mul x (W_V a))) (\<lambda>V.
     bindL (perform HeadSplit (split_heads a (rows x) (Q, K, V))) (\<lambda>heads.
     bindL (mapL (\<lambda>(q, k, v). attention_steps q k v msk) heads) (\<lambda>head_outputs.
     bindL (perform Concatenation (concat_heads a (rows x) head_outputs)) (\<lambda>c.
     perform OutputProjection (mat_mul c (W_O a))))))))"

section \<open>Shapes, sample statistics and concrete operands\<close>

text \<open>The shape that the comments of the code give to an optional mask.\<close>

definition mask_fits :: "matrix option \<Rightarrow> nat \<Rightarrow> nat \<Rightarrow> bool" where
  "mask_fits msk r c = (case msk of None \<Rightarrow> True | Some m \<Rightarrow> rows m = r \<and> cols m = c)"

text \<open>The shapes that the constructors establish.\<close>

definition has_shape :: "matrix \<Rightarrow> nat \<Rightarrow> nat \<Rightarrow> bool" where
  "has_shape m r c = (rows m = r \<and> cols m = c)"

definition mha_wf :: "MultiHeadAttention \<Rightarrow> bool" where
  "mha_wf a =
     (num_heads a * d_k a = mha_d_model a \<and> d_v a = d_k a \<and>
      has_shape (W_Q a) (mha_d_model a) (mha_d_model a) \<and>
      has_shape (W_K a) (mha_d_model a) (mha_d_model a) \<and>
      has_shape (W_V a) (mha_d_model a) (mha_d_model a) \<and>
      has_shape (W_O a) (mha_d_model a) (mha_d_model a))"

definition ln_wf :: "LayerNorm \<Rightarrow> bool" where
  "ln_wf l = (has_shape (gamma l) (ln_d_model l) 1 \<and> has_shape (beta l) (ln_d_model l) 1)"

text \<open>The real number held by a finite scalar, and the statistics of a row.\<close>

definition real_of :: "scalar \<Rightarrow> real" where
  "real_of v = (case v of Fin r \<Rightarrow> r | PInf \<Rightarrow> 0 | NInf \<Rightarrow> 0 | NaN \<Rightarrow> 0)"

definition is_fin :: "scalar \<Rightarrow> bool" where
  "is_fin v = (case v of Fin r \<Rightarrow> True | PInf \<Rightarrow> False | NInf \<Rightarrow> False | NaN \<Rightarrow> False)"





definition identity :: "nat \<Rightarrow> matrix" where
  "identity n = \<lparr>rows = n, cols = n, coeff = (\<lambda>i j. if i = j then Fin 1 else Fin 0)\<rparr>"

text \<open>Multi-head attention whose four projections are the identity.\<close>

definition identity_attention :: "nat \<Rightarrow> nat \<Rightarrow> MultiHeadAttention" where
  "identity_attention d_model n_heads =
     \<lparr>mha_d_model = d_model, num_heads = n_heads,
      d_k = d_model div n_heads, d_v = d_model div n_heads,
      W_Q = identity d_model, W_K = identity d_model,
      W_V = identity d_model, W_O = identity d_model\<rparr>"

text \<open>The exponential of the diagonal score \<open>1 / sqrt 2\<close> of the identity scenario.\<close>

definition exp_inv_sqrt2 :: real where
  "exp_inv_sqrt2 = exp (1 / sqrt 2)"

text \<open>An engine state that delivers the variates \<open>1/2, 1/4, 1/8, ...\<close>.\<close>

definition halving_engine :: engine where
  "halving_engine = siterate (\<lambda>u. u / 2) (1 / 2)"

section \<open>Arithmetic of scalars\<close>

lemma max_finite_ge_1: "1 \<le> max_finite"
  unfolding max_finite_def by simp


lemma rnd_Fin: "\<bar>r\<bar> \<le> max_finite \<Longrightarrow> rnd r = Fin r"
  unfolding rnd_def by auto

lemma rnd_small: "\<bar>r\<bar> \<le> 1 \<Longrightarrow> rnd r = Fin r"
  using max_finite_ge_1 by (intro rnd_Fin) linarith

lemma rnd_0 [simp]: "rnd 0 = Fin 0"
  by (simp add: rnd_small)

lemma rnd_1 [simp]: "rnd 1 = Fin 1"
  by (simp add: rnd_small)

lemma exp_underflow_less_1 [simp]: "\<not> 1 \<le> exp_underflow"
  unfolding exp_underflow_def by simp

lemma exp_underflow_bounds: "0 < exp_underflow" "exp_underflow < 1"
  unfolding exp_underflow_def by simp_all

lemma s_exp_Fin: "exp_underflow < exp a \<Longrightarrow> s_exp (Fin a) = rnd (exp a)"
  by simp

lemma s_exp_nonneg: "1 \<le> exp a \<Longrightarrow> s_exp (Fin a) = rnd (exp a)"
  using exp_underflow_bounds(2) by (intro s_exp_Fin) linarith

lemmas matrix_ops =
  bindE_def mat_mul_def transpose_m_def mat_div_scalar_def mat_add_def unaryExpr_def
  rowwise_sum_def colwise_div_def mat_of_rows_def zero_matrix_def

lemmas attention_defs =
  scaled_dot_product_attention_def attention_weights_def attention_scores_def
  apply_mask_def softmax_def

section \<open>The additive mask\<close>

text \<open>
  C1. A mask entry of positive infinity at \<open>(i, j)\<close> should give the attention weight
  0 at \<open>(i, j)\<close>. The code adds the mask to the scores and exponentiates: the masked
  score is \<open>+\<infinity>\<close>, so are its exponential and the row sum, and the weight
  \<open>\<infinity> / \<infinity>\<close> is NaN, while the unmasked key of the same row gets the weight 0. Two
  queries, two keys, all scores 0, the mask \<open>+\<infinity>\<close> at \<open>(0, 1)\<close> only:
\<close>

theorem masked_weight_is_nan:
  "\<not> isl (attention_weights (mat_of_rows 2 1 [[Fin 0], [Fin 0]])
            (mat_of_rows 2 1 [[Fin 0], [Fin 0]])
            (Some (mat_of_rows 2 2 [[Fin 0, PInf], [Fin 0, Fin 0]]))) \<and>
   coeff (projr (attention_weights (mat_of_rows 2 1 [[Fin 0], [Fin 0]])
            (mat_of_rows 2 1 [[Fin 0], [Fin 0]])
            (Some (mat_of_rows 2 2 [[Fin 0, PInf], [Fin 0, Fin 0]])))) 0 1 = NaN \<and>
   coeff (projr (attention_weights (mat_of_rows 2 1 [[Fin 0], [Fin 0]])
            (mat_of_rows 2 1 [[Fin 0], [Fin 0]])
            (Some (mat_of_rows 2 2 [[Fin 0, PInf], [Fin 0, Fin 0]])))) 0 0 = Fin 0"
  by (simp add: attention_defs matrix_ops numeral_2_eq_2)

section \<open>Shared facts\<close>

lemma bindE_Inr [simp]: "bindE (Inr v) f = f v"
  by (simp add: bindE_def)

lemma bindE_Inl [simp]: "bindE (Inl e) f = Inl e"
  by (simp add: bindE_def)

lemma s_add_NaN_right [simp]: "s_add x NaN = NaN"
  by (cases x) simp_all

lemma s_mul_NaN_right [simp]: "s_mul x NaN = NaN"
  by (cases x) simp_all

lemma s_div_NaN_right [simp]: "s_div x NaN = NaN"
  by (cases x) simp_all

lemma softmax_eq:
  "softmax S = Inr (S\<lparr>coeff := (\<lambda>i j. s_div (s_exp (coeff S i j))
                                   (s_sum (\<lambda>k. s_exp (coeff S i k)) (cols S)))\<rparr>)"
  by (simp add: softmax_def unaryExpr_def rowwise_sum_def colwise_div_def Let_def)

lemma attention_scores_eq:
  "cols Q = cols K \<Longrightarrow>
   attention_scores Q K =
     Inr \<lparr>rows = rows Q, cols = rows K,
          coeff = (\<lambda>i j. s_div (s_sum (\<lambda>k. s_mul (coeff Q i k) (coeff K j k)) (cols Q))
                            (s_sqrt (Fin (real (cols Q)))))\<rparr>"
  by (simp add: attention_scores_def mat_mul_def transpose_m_def mat_div_scalar_def)

lemma attention_scores_mismatch:
  "cols Q \<noteq> cols K \<Longrightarrow> attention_scores Q K = Inl InvalidProduct"
  by (simp add: attention_scores_def mat_mul_def transpose_m_def)

section \<open>A row without any unmasked key\<close>

lemma s_sum_NaN: "0 < n \<Longrightarrow> (\<And>k. k < n \<Longrightarrow> f k = NaN) \<Longrightarrow> s_sum f n = NaN"
  by (cases n) simp_all

lemma s_sum_inf_or_nan:
  "0 < n \<Longrightarrow> (\<And>k. k < n \<Longrightarrow> f k = PInf \<or> f k = NaN) \<Longrightarrow>
   s_sum f n = PInf \<or> s_sum f n = NaN"
proof (induction n)
  case 0
  then show ?case by simp
next
  case (Suc n)
  have last: "f n = PInf \<or> f n = NaN"
    using Suc.prems(2) by simp
  show ?case
  proof (cases "n = 0")
    case True
    with last show ?thesis by auto
  next
    case False
    then have "s_sum f n = PInf \<or> s_sum f n = NaN"
      using Suc by simp
    with last show ?thesis by auto
  qed
qed

lemma masked_exp: "s_exp (s_add v PInf) = PInf \<or> s_exp (s_add v PInf) = NaN"
  by (cases v) simp_all

lemma div_inf_or_nan:
  "x = PInf \<or> x = NaN \<Longrightarrow> y = PInf \<or> y = NaN \<Longrightarrow> s_div x y = NaN"
  by auto

text \<open>
  C4, as the claim states it: a row whose every entry is masked makes the attention fail
  with a reported error. The code has no such check. Two queries and two keys, the
  first query masked against both keys: the call returns, and the first row of the
  result holds NaN.
\<close>

theorem fully_masked_row_counterexample:
  "\<not> isl (scaled_dot_product_attention (mat_of_rows 2 1 [[Fin 0], [Fin 0]])
            (mat_of_rows 2 1 [[Fin 0], [Fin 0]]) (mat_of_rows 2 1 [[Fin 1], [Fin 2]])
            (Some (mat_of_rows 2 2 [[PInf, PInf], [Fin 0, Fin 0]]))) \<and>
   coeff (projr (scaled_dot_product_attention (mat_of_rows 2 1 [[Fin 0], [Fin 0]])
            (mat_of_rows 2 1 [[Fin 0], [Fin 0]]) (mat_of_rows 2 1 [[Fin 1], [Fin 2]])
            (Some (mat_of_rows 2 2 [[PInf, PInf], [Fin 0, Fin 0]])))) 0 0 = NaN"
  by (simp add: attention_defs matrix_ops numeral_2_eq_2)

text \<open>
  C4, amended: when the shapes of the operands agree, the attention reports no error
  for a row \<open>i\<close> of the mask that is \<open>+\<infinity>\<close> throughout. It returns a matrix of the shape
  \<open>[rows Q, cols V]\<close>, and every entry of row \<open>i\<close> of that matrix is NaN.
\<close>

theorem fully_masked_row:
  assumes shapes: "cols Q = cols K" "rows K = rows V" "rows M = rows Q" "cols M = rows K"
      and keys: "0 < rows K"
      and row: "i < rows Q"
      and masked: "\<forall>j<rows K. coeff M i j = PInf"
  shows "\<exists>y. scaled_dot_product_attention Q K V (Some M) = Inr y \<and>
             rows y = rows Q \<and> cols y = cols V \<and> (\<forall>c<cols V. coeff y i c = NaN)"
proof -
  define sc where
    "sc = (\<lambda>i j. s_div (s_sum (\<lambda>k. s_mul (coeff Q i k) (coeff K j k)) (cols Q))
                   (s_sqrt (Fin (real (cols Q)))))"
  define e where
    "e = (\<lambda>j. s_exp (if j < rows K then s_add (sc i j) (coeff M i j) else sc i j))"
  have e: "e j = PInf \<or> e j = NaN" if "j < rows K" for j
    using masked that masked_exp [of "sc i j"] by (simp add: e_def)
  have se: "s_sum e (rows K) = PInf \<or> s_sum e (rows K) = NaN"
    using keys e by (rule s_sum_inf_or_nan)
  have w: "s_div (e j) (s_sum e (rows K)) = NaN" if "j < rows K" for j
    using e [OF that] se by (rule div_inf_or_nan)
  have "s_sum (\<lambda>k. s_mul (s_div (e k) (s_sum e (rows K))) (coeff V k c)) (rows K) = NaN" for c
    using keys by (rule s_sum_NaN) (simp add: w)
  then show ?thesis
    using shapes row
    by (simp add: scaled_dot_product_attention_def attention_weights_def attention_scores_eq
        apply_mask_def mat_add_def softmax_eq mat_mul_def e_def sc_def cong: if_cong)
qed

theorem fully_masked_row_witness:
  "cols (mat_of_rows 1 1 [[Fin 0]]) = cols (mat_of_rows 1 1 [[Fin 0]]) \<and>
   rows (mat_of_rows 1 1 [[Fin 0]]) = rows (mat_of_rows 1 1 [[Fin 7]]) \<and>
   rows (mat_of_rows 1 1 [[PInf]]) = rows (mat_of_rows 1 1 [[Fin 0]]) \<and>
   cols (mat_of_rows 1 1 [[PInf]]) = rows (mat_of_rows 1 1 [[Fin 0]]) \<and>
   0 < rows (mat_of_rows 1 1 [[Fin 0]]) \<and>
   (0::nat) < rows (mat_of_rows 1 1 [[Fin 0]]) \<and>
   coeff (mat_of_rows 1 1 [[PInf]]) 0 0 = PInf \<and>
   (\<exists>y. scaled_dot_product_attention (mat_of_rows 1 1 [[Fin 0]]) (mat_of_rows 1 1 [[Fin 0]])
          (mat_of_rows 1 1 [[Fin 7]]) (Some (mat_of_rows 1 1 [[PInf]])) = Inr y \<and>
        rows y = 1 \<and> cols y = 1 \<and> coeff y 0 0 = NaN)"
  using fully_masked_row [of "mat_of_rows 1 1 [[Fin 0]]" "mat_of_rows 1 1 [[Fin 0]]"
      "mat_of_rows 1 1 [[Fin 7]]" "mat_of_rows 1 1 [[PInf]]" 0]
  by (simp add: mat_of_rows_def)

section \<open>Softmax rows\<close>





text \<open>A row of scores below the underflow threshold: the weights are \<open>0 / 0\<close>.\<close>

lemma exp_minus_800_underflows: "exp (- 800) \<le> exp_underflow"
proof -
  have "(13 / 8 :: real) \<le> 1 + 1 / 2 + (1 / 2)\<^sup>2 / 2"
    by (simp add: power2_eq_square)
  also have "\<dots> \<le> exp (1 / 2)"
    by (rule exp_lower_Taylor_quadratic) simp
  finally have "(13 / 8 :: real) ^ 16 \<le> exp (1 / 2) ^ 16"
    by (intro power_mono) simp_all
  moreover have "(2::real) ^ 11 \<le> (13 / 8) ^ 16"
    by (simp add: power_divide)
  moreover have "exp (1 / 2 :: real) ^ 16 = exp 8"
    using exp_of_nat_mult [of 16 "1 / 2 :: real"] by simp
  ultimately have "(2::real) ^ 11 \<le> exp 8"
    by linarith
  then have "((2::real) ^ 11) ^ 100 \<le> exp 8 ^ 100"
    by (intro power_mono) simp_all
  moreover have "exp (8::real) ^ 100 = exp 800"
    using exp_of_nat_mult [of 100 "8::real"] by simp
  moreover have "((2::real) ^ 11) ^ 100 = 2 ^ 1100"
    by (simp add: power_mult [symmetric])
  moreover have "(2::real) ^ 1075 \<le> 2 ^ 1100"
    by (intro power_increasing) simp_all
  ultimately have "(2::real) ^ 1075 \<le> exp 800"
    by linarith
  then have "1 / exp 800 \<le> 1 / (2::real) ^ 1075"
    by (intro divide_left_mono) simp_all
  then show ?thesis
    by (simp add: exp_minus exp_underflow_def inverse_eq_divide)
qed

lemma underflow_row_is_nan:
  "coeff (projr (softmax (mat_of_rows 1 2 [[Fin (- 800), Fin (- 800)]]))) 0 0 = NaN"
  using exp_minus_800_underflows
  by (simp add: softmax_def matrix_ops numeral_2_eq_2)





section \<open>Shapes\<close>

text \<open>The constructors establish the shapes of the weights.\<close>

lemma fold_invariant:
  "P s \<Longrightarrow> (\<And>x s. x \<in> set xs \<Longrightarrow> P s \<Longrightarrow> P (f x s)) \<Longrightarrow> P (fold f xs s)"
  by (induction xs arbitrary: s) simp_all

lemma uniform_init_row_shape:
  "has_shape (fst (uniform_init_row r i s)) (rows (fst s)) (cols (fst s))"
  unfolding uniform_init_row_def
  by (rule fold_invariant)
     (auto simp: has_shape_def set_coeff_def split: prod.splits)

lemma uniform_init_shape: "has_shape (fst (uniform_init m r g)) (rows m) (cols m)"
proof -
  have "has_shape (fst (fold (uniform_init_row r) [0..<rows m] (m, g))) (rows m) (cols m)"
  proof (rule fold_invariant)
    show "has_shape (fst (m, g)) (rows m) (cols m)"
      by (simp add: has_shape_def)
  next
    fix x and s :: "matrix \<times> engine" assume "has_shape (fst s) (rows m) (cols m)"
    then show "has_shape (fst (uniform_init_row r x s)) (rows m) (cols m)"
      using uniform_init_row_shape [of r x s] by (simp add: has_shape_def)
  qed
  then show ?thesis
    by (simp add: uniform_init_def)
qed

lemma uniform_init_uninitialized:
  "uniform_init (uninitialized r c) rng g = (w, g') \<Longrightarrow> has_shape w r c"
  using uniform_init_shape [of "uninitialized r c" rng g]
  by (simp add: uninitialized_def has_shape_def)

lemma MultiHeadAttention_ctor_wf:
  assumes "0 < n_heads" "n_heads dvd d_model"
  shows "\<exists>a g'. MultiHeadAttention_ctor d_model n_heads g = Inr (a, g') \<and>
                 mha_wf a \<and> mha_d_model a = d_model"
proof -
  obtain wq g1 where 1: "uniform_init (uninitialized d_model d_model) default_init_range g = (wq, g1)"
    by (cases "uniform_init (uninitialized d_model d_model) default_init_range g") auto
  obtain wk g2 where 2: "uniform_init (uninitialized d_model d_model) default_init_range g1 = (wk, g2)"
    by (cases "uniform_init (uninitialized d_model d_model) default_init_range g1") auto
  obtain wv g3 where 3: "uniform_init (uninitialized d_model d_model) default_init_range g2 = (wv, g3)"
    by (cases "uniform_init (uninitialized d_model d_model) default_init_range g2") auto
  obtain wo g4 where 4: "uniform_init (uninitialized d_model d_model) default_init_range g3 = (wo, g4)"
    by (cases "uniform_init (uninitialized d_model d_model) default_init_range g3") auto
  have "n_heads * (d_model div n_heads) = d_model"
    using assms(2) by simp
  then show ?thesis
    using assms 1 2 3 4
      uniform_init_uninitialized [OF 1] uniform_init_uninitialized [OF 2]
      uniform_init_uninitialized [OF 3] uniform_init_uninitialized [OF 4]
    by (simp add: MultiHeadAttention_ctor_def mha_wf_def)
qed

lemma LayerNorm_ctor_wf: "ln_wf (LayerNorm_ctor d e) \<and> ln_d_model (LayerNorm_ctor d e) = d"
  by (simp add: LayerNorm_ctor_def ln_wf_def has_shape_def setZero_def setOnes_def uninitialized_def)

lemma mat_mul_shape:
  "cols a = rows b \<Longrightarrow> \<exists>y. mat_mul a b = Inr y \<and> has_shape y (rows a) (cols b)"
  by (simp add: mat_mul_def has_shape_def)

lemma attention_shape:
  assumes "cols Q = cols K" "rows K = rows V" "mask_fits msk (rows Q) (rows K)"
  shows "\<exists>y. scaled_dot_product_attention Q K V msk = Inr y \<and> has_shape y (rows Q) (cols V)"
  using assms
  by (cases msk)
     (simp_all add: scaled_dot_product_attention_def attention_weights_def attention_scores_eq
        apply_mask_def mat_add_def softmax_eq mat_mul_def has_shape_def mask_fits_def)

lemma mapE_all:
  "(\<And>x. x \<in> set xs \<Longrightarrow> \<exists>y. f x = Inr y \<and> P y) \<Longrightarrow>
   \<exists>ys. mapE f xs = Inr ys \<and> length ys = length xs \<and> (\<forall>y\<in>set ys. P y)"
proof (induction xs)
  case Nil
  then show ?case by simp
next
  case (Cons x xs)
  obtain y where y: "f x = Inr y" "P y"
    using Cons.prems [of x] by auto
  obtain ys where ys: "mapE f xs = Inr ys" "length ys = length xs" "\<forall>y\<in>set ys. P y"
    using Cons.IH Cons.prems by auto
  show ?case
    using y ys by simp
qed

lemma foldE_invariant:
  "P s \<Longrightarrow> (\<And>x s. x \<in> set xs \<Longrightarrow> P s \<Longrightarrow> \<exists>s'. f x s = Inr s' \<and> P s') \<Longrightarrow>
   \<exists>s'. foldE f xs s = Inr s' \<and> P s'"
proof (induction xs arbitrary: s)
  case Nil
  then show ?case by simp
next
  case (Cons x xs)
  obtain s1 where s1: "f x s = Inr s1" "P s1"
    using Cons.prems(2) [of x s] Cons.prems(1) by auto
  have "\<exists>s'. foldE f xs s1 = Inr s' \<and> P s'"
    using s1(2) Cons.prems(2) by (intro Cons.IH) auto
  then show ?case
    using s1 by simp
qed

lemma head_in_range:
  assumes "h < n" shows "h * d + d \<le> n * (d::nat)"
proof -
  have "Suc h * d \<le> n * d"
    using assms by (intro mult_le_mono1) simp
  then show ?thesis by simp
qed

lemma MultiHeadAttention_call_shape:
  assumes wf: "mha_wf a" and x: "cols x = mha_d_model a"
      and msk: "mask_fits msk (rows x) (rows x)"
  shows "\<exists>y. MultiHeadAttention_call a x msk = Inr y \<and> has_shape y (rows x) (cols x)"
proof -
  let ?n = "rows x" and ?d = "mha_d_model a"
  from wf have dk: "num_heads a * d_k a = ?d" and dv: "d_v a = d_k a"
    and W: "has_shape (W_Q a) ?d ?d" "has_shape (W_K a) ?d ?d"
           "has_shape (W_V a) ?d ?d" "has_shape (W_O a) ?d ?d"
    by (simp_all add: mha_wf_def)
  obtain Q K V where QKV: "project a x = Inr (Q, K, V)"
      "has_shape Q ?n ?d" "has_shape K ?n ?d" "has_shape V ?n ?d"
    using x W by (simp add: project_def mat_mul_def has_shape_def)
  define ok where "ok = (\<lambda>(q, k, v). has_shape q ?n (d_k a) \<and> has_shape k ?n (d_k a)
                                     \<and> has_shape v ?n (d_k a))"
  have "\<exists>hs. split_heads a ?n (Q, K, V) = Inr hs \<and> length hs = length [0..<num_heads a]
           \<and> (\<forall>h\<in>set hs. ok h)"
    unfolding split_heads_def prod.case
  proof (rule mapE_all)
    fix h assume "h \<in> set [0..<num_heads a]"
    then have "h * d_k a + d_k a \<le> ?d"
      using head_in_range [of h "num_heads a" "d_k a"] dk by simp
    then show "\<exists>y. bindE (block Q 0 (h * d_k a) ?n (d_k a)) (\<lambda>q.
                    bindE (block K 0 (h * d_k a) ?n (d_k a)) (\<lambda>k.
                    bindE (block V 0 (h * d_v a) ?n (d_v a)) (\<lambda>v. Inr (q, k, v)))) = Inr y
                  \<and> ok y"
      using QKV(2-4) dv by (simp add: block_def has_shape_def ok_def)
  qed
  then obtain hs where hs: "split_heads a ?n (Q, K, V) = Inr hs" "\<forall>h\<in>set hs. ok h"
      "length hs = num_heads a"
    by auto
  have "\<exists>outs. attend_heads hs msk = Inr outs \<and> length outs = length hs
           \<and> (\<forall>y\<in>set outs. has_shape y ?n (d_k a))"
    unfolding attend_heads_def
  proof (rule mapE_all)
    fix h assume h: "h \<in> set hs"
    obtain q k v where qkv: "h = (q, k, v)"
      by (cases h) auto
    have s: "has_shape q ?n (d_k a)" "has_shape k ?n (d_k a)" "has_shape v ?n (d_k a)"
      using hs(2) h qkv by (auto simp: ok_def)
    then have "\<exists>y. scaled_dot_product_attention q k v msk = Inr y \<and> has_shape y (rows q) (cols v)"
      using msk by (intro attention_shape) (simp_all add: has_shape_def)
    then show "\<exists>y. (case h of (q, k, v) \<Rightarrow> scaled_dot_product_attention q k v msk) = Inr y
                  \<and> has_shape y ?n (d_k a)"
      using s by (simp add: qkv has_shape_def)
  qed
  then obtain outs where outs: "attend_heads hs msk = Inr outs" "length outs = num_heads a"
      "\<forall>y\<in>set outs. has_shape y ?n (d_k a)"
    using hs(3) by auto
  have "\<exists>c. concat_heads a ?n outs = Inr c \<and> has_shape c ?n ?d"
    unfolding concat_heads_def
  proof (rule foldE_invariant)
    show "has_shape (uninitialized ?n ?d) ?n ?d"
      by (simp add: uninitialized_def has_shape_def)
  next
    fix h c assume h: "h \<in> set [0..<num_heads a]" and c: "has_shape c ?n ?d"
    have "h * d_k a + d_k a \<le> ?d"
      using h head_in_range [of h "num_heads a" "d_k a"] dk by simp
    moreover have "has_shape (outs ! h) ?n (d_k a)"
      using h outs(2,3) by simp
    ultimately show "\<exists>c'. assign_block c 0 (h * d_k a) ?n (d_k a) (outs ! h) = Inr c'
                        \<and> has_shape c' ?n ?d"
      using c by (simp add: assign_block_def has_shape_def)
  qed
  then obtain c where c: "concat_heads a ?n outs = Inr c" "has_shape c ?n ?d"
    by auto
  have "\<exists>y. mat_mul c (W_O a) = Inr y \<and> has_shape y ?n ?d"
    using c(2) W(4) by (simp add: mat_mul_def has_shape_def)
  then show ?thesis
    using QKV(1) hs(1) outs(1) c(1) x
    by (simp add: MultiHeadAttention_call_def)
qed

text \<open>Line 179 needs a single row; line 176 needs as many rows as columns.\<close>

lemma LayerNorm_call_rows:
  "ln_wf l \<Longrightarrow> LayerNorm_call l x = Inr y \<Longrightarrow> rows x = 1 \<and> cols x = 1"
  by (auto simp: ln_wf_def has_shape_def LayerNorm_call_def denominators_def row_var_def centered_def row_mean_def
      rowwise_mean_def rowwise_sub_def colwise_div_def rowwise_mul_def mat_add_def
      transpose_m_def unaryExpr_def bindE_def split: if_splits sum.splits)

lemmas ln_defs =
  LayerNorm_call_def denominators_def row_var_def centered_def row_mean_def rowwise_mean_def
  rowwise_sub_def colwise_div_def rowwise_mul_def mat_add_def transpose_m_def unaryExpr_def
  square_def s_sub_def LayerNorm_ctor_def default_eps_def setOnes_def setZero_def
  uninitialized_def

text \<open>
  C3. Every sub-layer should return a matrix of the shape of its input. Multi-head
  attention does. \<^verbatim>\<open>LayerNorm::operator()\<close> does not return at all for a sequence:
  with \<open>d_model = 2\<close>, three tokens stop line 176 (\<^verbatim>\<open>x.rowwise() - mean.transpose()\<close>
  needs \<open>seq_len = d_model\<close>); two tokens pass lines 175 to 178 and stop the last sum
  of line 179, which needs \<open>seq_len = 1\<close>.
\<close>

theorem layer_norm_aborts_on_sequences:
  "centered (mat_of_rows 3 2 [[Fin 1, Fin 3], [Fin 5, Fin 7], [Fin 9, Fin 11]])
     = Inl SizesDiffer \<and>
   LayerNorm_call (LayerNorm_ctor 2 default_eps)
       (mat_of_rows 3 2 [[Fin 1, Fin 3], [Fin 5, Fin 7], [Fin 9, Fin 11]]) = Inl SizesDiffer \<and>
   \<not> isl (denominators (LayerNorm_ctor 2 default_eps)
            (mat_of_rows 2 2 [[Fin 1, Fin 3], [Fin 5, Fin 7]])) \<and>
   LayerNorm_call (LayerNorm_ctor 2 default_eps)
       (mat_of_rows 2 2 [[Fin 1, Fin 3], [Fin 5, Fin 7]]) = Inl SizesDiffer \<and>
   \<not> isl (MultiHeadAttention_call (identity_attention 2 1)
            (mat_of_rows 2 2 [[Fin 1, Fin 3], [Fin 5, Fin 7]]) None) \<and>
   rows (projr (MultiHeadAttention_call (identity_attention 2 1)
            (mat_of_rows 2 2 [[Fin 1, Fin 3], [Fin 5, Fin 7]]) None)) = 2 \<and>
   cols (projr (MultiHeadAttention_call (identity_attention 2 1)
            (mat_of_rows 2 2 [[Fin 1, Fin 3], [Fin 5, Fin 7]]) None)) = 2"
proof -
  let ?x = "mat_of_rows 2 2 [[Fin 1, Fin 3], [Fin 5, Fin 7]]"
  let ?a = "identity_attention 2 1"
  have wf: "mha_wf ?a"
    by (simp add: mha_wf_def identity_attention_def identity_def has_shape_def)
  have cx: "cols ?x = mha_d_model ?a"
    by (simp add: mat_of_rows_def identity_attention_def)
  obtain y where y: "MultiHeadAttention_call ?a ?x None = Inr y" "has_shape y (rows ?x) (cols ?x)"
    using MultiHeadAttention_call_shape [OF wf cx, of None] by (auto simp: mask_fits_def)
  have shape: "rows y = 2" "cols y = 2"
    using y(2) by (simp_all add: has_shape_def mat_of_rows_def)
  have attention: "\<not> isl (MultiHeadAttention_call ?a ?x None) \<and>
      rows (projr (MultiHeadAttention_call ?a ?x None)) = 2 \<and>
      cols (projr (MultiHeadAttention_call ?a ?x None)) = 2"
    unfolding y(1) using shape by simp
  have norm: "centered (mat_of_rows 3 2 [[Fin 1, Fin 3], [Fin 5, Fin 7], [Fin 9, Fin 11]])
        = Inl SizesDiffer \<and>
      LayerNorm_call (LayerNorm_ctor 2 default_eps)
        (mat_of_rows 3 2 [[Fin 1, Fin 3], [Fin 5, Fin 7], [Fin 9, Fin 11]]) = Inl SizesDiffer \<and>
      \<not> isl (denominators (LayerNorm_ctor 2 default_eps) ?x) \<and>
      LayerNorm_call (LayerNorm_ctor 2 default_eps) ?x = Inl SizesDiffer"
    by (simp add: ln_defs mat_of_rows_def)
  from norm attention show ?thesis
    by (simp only: simp_thms)
qed

section \<open>Inputs of the wrong shape\<close>

lemmas call_defs =
  MultiHeadAttention_call_def project_def split_heads_def attend_heads_def concat_heads_def
  identity_attention_def identity_def block_def assign_block_def uninitialized_def

lemmas step_defs =
  MultiHeadAttention_steps_def attention_steps_def bindL_def perform_def

text \<open>The log does not change what a call returns.\<close>

lemma snd_perform [simp]: "snd (perform s r) = r"
  by (simp add: perform_def split: sum.splits)

lemma snd_bindL [simp]: "snd (bindL m f) = bindE (snd m) (\<lambda>v. snd (f v))"
  by (cases m) (auto simp: bindL_def bindE_def split: sum.splits prod.splits)

lemma snd_mapL: "snd (mapL f xs) = mapE (\<lambda>x. snd (f x)) xs"
  by (induction xs) (simp_all add: bindE_def split: sum.splits)

lemma bindE_assoc: "bindE (bindE m f) g = bindE m (\<lambda>v. bindE (f v) g)"
  by (simp add: bindE_def split: sum.splits)

lemma attention_steps_result:
  "snd (attention_steps Q K V msk) = scaled_dot_product_attention Q K V msk"
  by (cases msk)
     (simp_all add: attention_steps_def scaled_dot_product_attention_def attention_weights_def
        apply_mask_def bindE_assoc)

lemma MultiHeadAttention_steps_result:
  "snd (MultiHeadAttention_steps a x msk) = MultiHeadAttention_call a x msk"
  by (simp add: MultiHeadAttention_steps_def MultiHeadAttention_call_def project_def
      attend_heads_def snd_mapL attention_steps_result bindE_assoc case_prod_unfold)

text \<open>
  C5, as the claim states it: a mask whose shape differs from \<open>[seq_len, seq_len]\<close> is
  reported at the start of the forward pass, before any computation proceeds. The call
  operator has no check of its own; the dimensions are examined by the assertions of the
  matrix operations, as each is reached. With two tokens, \<open>d_model = 2\<close> and one head, a
  mask of the shape \<open>[3, 3]\<close> stops the call only in \<^verbatim>\<open>scores += (*mask)\<close>: the three
  projections, the head split and the score product have completed by then.
\<close>

theorem late_mask_check_counterexample:
  "MultiHeadAttention_steps (identity_attention 2 1)
     (mat_of_rows 2 2 [[Fin 1, Fin 0], [Fin 0, Fin 1]]) (Some (zero_matrix 3 3))
   = ([QueryProjection, KeyProjection, ValueProjection, HeadSplit, ScoreProduct],
      Inl SizesDiffer)"
  by (simp add: step_defs call_defs attention_defs matrix_ops cong: if_cong)

lemma mapL_first_fails: "xs \<noteq> [] \<Longrightarrow> f (hd xs) = (l, Inl e) \<Longrightarrow> mapL f xs = (l, Inl e)"
  by (cases xs) (simp_all add: bindL_def)

lemma attention_steps_mask_mismatch:
  assumes "cols Q = cols K" "\<not> has_shape m (rows Q) (rows K)"
  shows "attention_steps Q K V (Some m) = ([ScoreProduct], Inl SizesDiffer)"
  using assms
  by (auto simp: attention_steps_def bindL_def perform_def attention_scores_eq
      apply_mask_def mat_add_def has_shape_def)

text \<open>
  C5, amended: for weights of the constructed shapes, an input whose column count differs
  from \<open>d_model\<close> stops the call in its first statement, the product \<open>x * W_Q\<close>, with
  the assertion of the matrix product and before any statement has completed; an input
  with \<open>d_model\<close> columns and a mask whose shape differs from \<open>[seq_len, seq_len]\<close> stops
  it with the size assertion of \<^verbatim>\<open>scores += (*mask)\<close> in the attention of the first
  head, after the three projections, the head split and the score product of that head
  have completed.
\<close>

theorem shape_mismatch_detection:
  assumes wf: "mha_wf a"
  shows "(cols x \<noteq> mha_d_model a \<longrightarrow>
            mat_mul x (W_Q a) = Inl InvalidProduct \<and>
            MultiHeadAttention_steps a x msk = ([], Inl InvalidProduct) \<and>
            MultiHeadAttention_call a x msk = Inl InvalidProduct) \<and>
         (cols x = mha_d_model a \<and> 0 < num_heads a \<and> \<not> has_shape m (rows x) (rows x) \<longrightarrow>
            MultiHeadAttention_steps a x (Some m)
              = ([QueryProjection, KeyProjection, ValueProjection, HeadSplit, ScoreProduct],
                 Inl SizesDiffer) \<and>
            MultiHeadAttention_call a x (Some m) = Inl SizesDiffer)"
proof -
  have first: "mat_mul x (W_Q a) = Inl InvalidProduct \<and>
      MultiHeadAttention_steps a x msk = ([], Inl InvalidProduct)"
    if "cols x \<noteq> mha_d_model a"
  proof -
    have "mat_mul x (W_Q a) = Inl InvalidProduct"
      using wf that by (simp add: mha_wf_def has_shape_def mat_mul_def)
    then show ?thesis
      by (simp add: MultiHeadAttention_steps_def bindL_def perform_def)
  qed
  have second: "MultiHeadAttention_steps a x (Some m)
      = ([QueryProjection, KeyProjection, ValueProjection, HeadSplit, ScoreProduct],
         Inl SizesDiffer)"
    if h: "cols x = mha_d_model a \<and> 0 < num_heads a \<and> \<not> has_shape m (rows x) (rows x)"
  proof -
    let ?n = "rows x" and ?d = "mha_d_model a"
    from wf have dk: "num_heads a * d_k a = ?d" and dv: "d_v a = d_k a"
      and W: "has_shape (W_Q a) ?d ?d" "has_shape (W_K a) ?d ?d" "has_shape (W_V a) ?d ?d"
      by (simp_all add: mha_wf_def)
    obtain Q K V where QKV: "mat_mul x (W_Q a) = Inr Q" "mat_mul x (W_K a) = Inr K"
        "mat_mul x (W_V a) = Inr V"
        "has_shape Q ?n ?d" "has_shape K ?n ?d" "has_shape V ?n ?d"
      using h W by (simp add: mat_mul_def has_shape_def)
    define get where "get = (\<lambda>h.
       bindE (block Q 0 (h * d_k a) ?n (d_k a)) (\<lambda>q.
       bindE (block K 0 (h * d_k a) ?n (d_k a)) (\<lambda>k.
       bindE (block V 0 (h * d_v a) ?n (d_v a)) (\<lambda>v. Inr (q, k, v)))))"
    have "\<exists>hs. mapE get [0..<num_heads a] = Inr hs \<and> length hs = length [0..<num_heads a]
             \<and> (\<forall>h\<in>set hs. case h of (q, k, v) \<Rightarrow> rows q = ?n \<and> rows k = ?n \<and> cols q = cols k)"
    proof (rule mapE_all)
      fix i assume "i \<in> set [0..<num_heads a]"
      then have "i * d_k a + d_k a \<le> ?d"
        using head_in_range [of i "num_heads a" "d_k a"] dk by simp
      then show "\<exists>y. get i = Inr y \<and> (case y of (q, k, v) \<Rightarrow> rows q = ?n \<and> rows k = ?n \<and> cols q = cols k)"
        using QKV(4-6) dv by (simp add: get_def block_def has_shape_def)
    qed
    then obtain hs where hs: "split_heads a ?n (Q, K, V) = Inr hs" "length hs = num_heads a"
        "\<forall>h\<in>set hs. case h of (q, k, v) \<Rightarrow> rows q = ?n \<and> rows k = ?n \<and> cols q = cols k"
      by (auto simp: split_heads_def get_def)
    have ne: "hs \<noteq> []"
      using hs(2) h by auto
    obtain q k v where qkv: "hd hs = (q, k, v)"
      by (cases "hd hs") auto
    have "rows q = ?n \<and> rows k = ?n \<and> cols q = cols k"
      using hs(3) ne qkv hd_in_set [OF ne] by fastforce
    then have "attention_steps q k v (Some m) = ([ScoreProduct], Inl SizesDiffer)"
      using h by (intro attention_steps_mask_mismatch) simp_all
    then have "mapL (\<lambda>(q, k, v). attention_steps q k v (Some m)) hs
        = ([ScoreProduct], Inl SizesDiffer)"
      using ne by (intro mapL_first_fails) (simp_all add: qkv)
    then show ?thesis
      by (simp add: MultiHeadAttention_steps_def bindL_def perform_def QKV(1-3) hs(1))
  qed
  show ?thesis
    using first second MultiHeadAttention_steps_result [of a x msk]
      MultiHeadAttention_steps_result [of a x "Some m"]
    by (metis snd_conv)
qed

lemma identity_attention_wf: "mha_wf (identity_attention 2 1)"
  by (simp add: mha_wf_def identity_attention_def identity_def has_shape_def)

theorem shape_mismatch_detection_witness:
  "mha_wf (identity_attention 2 1) \<and>
   cols (zero_matrix 2 3) \<noteq> mha_d_model (identity_attention 2 1) \<and>
   MultiHeadAttention_steps (identity_attention 2 1) (zero_matrix 2 3) None
     = ([], Inl InvalidProduct) \<and>
   cols (zero_matrix 2 2) = mha_d_model (identity_attention 2 1) \<and>
   0 < num_heads (identity_attention 2 1) \<and>
   \<not> has_shape (zero_matrix 3 3) (rows (zero_matrix 2 2)) (rows (zero_matrix 2 2)) \<and>
   MultiHeadAttention_steps (identity_attention 2 1) (zero_matrix 2 2) (Some (zero_matrix 3 3))
     = ([QueryProjection, KeyProjection, ValueProjection, HeadSplit, ScoreProduct],
        Inl SizesDiffer) \<and>
   MultiHeadAttention_call (identity_attention 2 1) (zero_matrix 2 2) (Some (zero_matrix 3 3))
     = Inl SizesDiffer"
proof -
  have 1: "cols (zero_matrix 2 3) \<noteq> mha_d_model (identity_attention 2 1)"
    by (simp add: zero_matrix_def identity_attention_def)
  have 2: "cols (zero_matrix 2 2) = mha_d_model (identity_attention 2 1) \<and>
      0 < num_heads (identity_attention 2 1) \<and>
      \<not> has_shape (zero_matrix 3 3) (rows (zero_matrix 2 2)) (rows (zero_matrix 2 2))"
    by (simp add: zero_matrix_def identity_attention_def has_shape_def)
  show ?thesis
    using identity_attention_wf 1 2
      shape_mismatch_detection [OF identity_attention_wf, of "zero_matrix 2 3" None]
      shape_mismatch_detection [OF identity_attention_wf, of "zero_matrix 2 2" _ "zero_matrix 3 3"]
    by blast
qed

section \<open>The identity scenario\<close>

text \<open>Partial sums of the exponential series enclose \<open>exp x\<close> for \<open>0 \<le> x \<le> 1\<close>.\<close>

lemma exp_taylor_lower:
  fixes x :: real
  assumes "0 \<le> x"
  shows "(\<Sum>m<n. x ^ m / fact m) \<le> exp x"
proof -
  obtain t where "exp x = (\<Sum>m<n. x ^ m / fact m) + exp t / fact n * x ^ n"
    using Maclaurin_exp_le [of x n] by blast
  moreover have "0 \<le> exp t / fact n * x ^ n"
    using assms by simp
  ultimately show ?thesis
    by linarith
qed

lemma exp_taylor_upper:
  fixes x :: real
  assumes "0 \<le> x" "x \<le> 1"
  shows "exp x \<le> (\<Sum>m<n. x ^ m / fact m) + 3 * x ^ n / fact n"
proof -
  obtain t where t: "\<bar>t\<bar> \<le> \<bar>x\<bar>"
      "exp x = (\<Sum>m<n. x ^ m / fact m) + exp t / fact n * x ^ n"
    using Maclaurin_exp_le [of x n] by blast
  have "exp t \<le> exp 1"
    using t(1) assms by simp
  then have "exp t \<le> 3"
    using exp_le by linarith
  then have "exp t * x ^ n \<le> 3 * x ^ n"
    using assms by (intro mult_right_mono) simp_all
  then have "exp t / fact n * x ^ n \<le> 3 * x ^ n / fact n"
    by (simp add: divide_right_mono)
  then show ?thesis
    using t(2) by linarith
qed

lemma inv_sqrt2_bounds: "7071 / 10000 \<le> 1 / sqrt 2" "1 / sqrt 2 \<le> 70711 / 100000"
proof -
  have "sqrt 2 \<le> 10000 / 7071"
    by (rule real_le_lsqrt) (simp_all add: power2_eq_square)
  then show "7071 / 10000 \<le> 1 / sqrt 2"
    by (simp add: field_simps)
  have "100000 / 70711 \<le> sqrt 2"
    by (rule real_le_rsqrt) (simp add: power2_eq_square)
  then show "1 / sqrt 2 \<le> 70711 / 100000"
    by (simp add: field_simps)
qed

lemma sum7: "(\<Sum>m<7. x ^ m / fact m) =
    1 + x + x ^ 2 / 2 + x ^ 3 / 6 + x ^ 4 / 24 + x ^ 5 / 120 + x ^ 6 / 720" for x :: real
  by (simp add: eval_nat_numeral)

lemma exp_inv_sqrt2_bounds:
  "202802 / 100000 \<le> exp (1 / sqrt 2)" "exp (1 / sqrt 2) \<le> 20289 / 10000"
proof -
  have "202802 / 100000 \<le> (\<Sum>m<7. (7071 / 10000 :: real) ^ m / fact m)"
    unfolding sum7 by (simp add: power_divide)
  also have "\<dots> \<le> exp (7071 / 10000)"
    by (rule exp_taylor_lower) simp
  also have "\<dots> \<le> exp (1 / sqrt 2)"
    using inv_sqrt2_bounds(1) by simp
  finally show "202802 / 100000 \<le> exp (1 / sqrt 2)" .
  have "exp (1 / sqrt 2) \<le> exp (70711 / 100000)"
    using inv_sqrt2_bounds(2) by simp
  also have "\<dots> \<le> (\<Sum>m<7. (70711 / 100000 :: real) ^ m / fact m)
                  + 3 * (70711 / 100000) ^ 7 / fact 7"
    by (rule exp_taylor_upper) simp_all
  also have "\<dots> \<le> 20289 / 10000"
    unfolding sum7 by (simp add: power_divide fact_numeral)
  finally show "exp (1 / sqrt 2) \<le> 20289 / 10000" .
qed


lemma rnd_le_3: "0 \<le> r \<Longrightarrow> r \<le> 4 \<Longrightarrow> rnd r = Fin r"
proof -
  assume "0 \<le> r" "r \<le> 4"
  moreover have "4 \<le> max_finite"
    unfolding max_finite_def by simp
  ultimately show ?thesis
    by (intro rnd_Fin) simp
qed



lemma exp_inv_sqrt2_enclosure: "202802 / 100000 \<le> exp_inv_sqrt2" "exp_inv_sqrt2 \<le> 20289 / 10000"
  using exp_inv_sqrt2_bounds by (simp_all add: exp_inv_sqrt2_def)

lemma rnd_facts:
  "rnd (1 / sqrt 2) = Fin (1 / sqrt 2)"
  "rnd exp_inv_sqrt2 = Fin exp_inv_sqrt2"
  "rnd (exp_inv_sqrt2 + 1) = Fin (exp_inv_sqrt2 + 1)"
  "rnd (1 + exp_inv_sqrt2) = Fin (1 + exp_inv_sqrt2)"
  "rnd (exp_inv_sqrt2 / (exp_inv_sqrt2 + 1)) = Fin (exp_inv_sqrt2 / (exp_inv_sqrt2 + 1))"
  "rnd (1 / (exp_inv_sqrt2 + 1)) = Fin (1 / (exp_inv_sqrt2 + 1))"
  "rnd (exp_inv_sqrt2 / (1 + exp_inv_sqrt2)) = Fin (exp_inv_sqrt2 / (1 + exp_inv_sqrt2))"
  "rnd (1 / (1 + exp_inv_sqrt2)) = Fin (1 / (1 + exp_inv_sqrt2))"
  "exp_inv_sqrt2 + 1 \<noteq> 0" "1 + exp_inv_sqrt2 \<noteq> 0"
  using exp_inv_sqrt2_enclosure inv_sqrt2_bounds by (simp_all add: rnd_le_3 field_simps)

lemma s_exp_facts:
  "s_exp (Fin (1 / sqrt 2)) = Fin exp_inv_sqrt2" "s_exp (Fin 0) = Fin 1"
proof -
  have "1 \<le> exp (1 / sqrt 2)"
    using exp_inv_sqrt2_bounds(1) by linarith
  then show "s_exp (Fin (1 / sqrt 2)) = Fin exp_inv_sqrt2"
    using rnd_facts(2) by (simp only: s_exp_nonneg exp_inv_sqrt2_def)
  show "s_exp (Fin 0) = Fin 1"
    using s_exp_nonneg [of 0] by simp
qed

lemma scenario_output:
  "MultiHeadAttention_call (identity_attention 2 1)
     (mat_of_rows 2 2 [[Fin 1, Fin 0], [Fin 0, Fin 1]]) None = Inr y \<Longrightarrow>
   rows y = 2 \<and> cols y = 2 \<and>
   coeff y 0 0 = Fin (exp_inv_sqrt2 / (exp_inv_sqrt2 + 1)) \<and>
   coeff y 0 1 = Fin (1 / (exp_inv_sqrt2 + 1)) \<and>
   coeff y 1 0 = Fin (1 / (1 + exp_inv_sqrt2)) \<and>
   coeff y 1 1 = Fin (exp_inv_sqrt2 / (1 + exp_inv_sqrt2))"
  by (auto simp add: call_defs attention_defs matrix_ops numeral_2_eq_2
        s_exp_facts rnd_facts simp del: s_exp.simps(1) cong: if_cong)

lemma scenario_scores:
  "project (identity_attention 2 1) (mat_of_rows 2 2 [[Fin 1, Fin 0], [Fin 0, Fin 1]])
     = Inr (Q, K, V) \<Longrightarrow>
   (\<exists>s. attention_scores Q K = Inr s \<and>
      coeff s 0 0 = Fin (1 / sqrt 2) \<and> coeff s 0 1 = Fin 0 \<and>
      coeff s 1 0 = Fin 0 \<and> coeff s 1 1 = Fin (1 / sqrt 2))"
  by (auto simp add: call_defs attention_defs matrix_ops numeral_2_eq_2 rnd_facts cong: if_cong)

lemma scenario_weights:
  "\<bar>exp_inv_sqrt2 / (exp_inv_sqrt2 + 1) - 6698 / 10000\<bar> \<le> 5 / 100000"
  "\<bar>1 / (exp_inv_sqrt2 + 1) - 3302 / 10000\<bar> \<le> 5 / 100000"
proof -
  have pos: "0 < exp_inv_sqrt2 + 1"
    using exp_inv_sqrt2_enclosure by simp
  have "66975 / 100000 \<le> exp_inv_sqrt2 / (exp_inv_sqrt2 + 1)"
       "exp_inv_sqrt2 / (exp_inv_sqrt2 + 1) \<le> 66985 / 100000"
    using exp_inv_sqrt2_enclosure pos by (simp_all add: pos_le_divide_eq pos_divide_le_eq)
  then show "\<bar>exp_inv_sqrt2 / (exp_inv_sqrt2 + 1) - 6698 / 10000\<bar> \<le> 5 / 100000"
    by linarith
  have "33015 / 100000 \<le> 1 / (exp_inv_sqrt2 + 1)" "1 / (exp_inv_sqrt2 + 1) \<le> 33025 / 100000"
    using exp_inv_sqrt2_enclosure pos by (simp_all add: pos_le_divide_eq pos_divide_le_eq)
  then show "\<bar>1 / (exp_inv_sqrt2 + 1) - 3302 / 10000\<bar> \<le> 5 / 100000"
    by linarith
qed

text \<open>
  C7: \<open>d_model = 2\<close>, one head, the four projections equal to the identity, no mask,
  and the input \<open>[[1, 0], [0, 1]]\<close>. The projections succeed; the scores of the
  projected \<open>Q\<close> and \<open>K\<close> are \<open>1 / sqrt 2\<close> on the diagonal, within \<open>5 \<cdot> 10\<^sup>-\<^sup>5\<close> of
  0.7071, and 0 off it; the call returns a matrix of the shape \<open>[2, 2]\<close> whose entries
  are finite and within \<open>5 \<cdot> 10\<^sup>-\<^sup>5\<close> of \<open>[[0.6698, 0.3302], [0.3302, 0.6698]]\<close>.
\<close>

theorem identity_scenario:
  "let a = identity_attention 2 1;
       x = mat_of_rows 2 2 [[Fin 1, Fin 0], [Fin 0, Fin 1]];
       Q = fst (projr (project a x));
       K = fst (snd (projr (project a x)));
       s = projr (attention_scores Q K);
       y = projr (MultiHeadAttention_call a x None)
   in \<not> isl (project a x) \<and> \<not> isl (attention_scores Q K) \<and>
      coeff s 0 0 = Fin (1 / sqrt 2) \<and> coeff s 0 1 = Fin 0 \<and>
      coeff s 1 0 = Fin 0 \<and> coeff s 1 1 = Fin (1 / sqrt 2) \<and>
      \<bar>1 / sqrt 2 - 7071 / 10000\<bar> \<le> 5 / 100000 \<and>
      \<not> isl (MultiHeadAttention_call a x None) \<and> rows y = 2 \<and> cols y = 2 \<and>
      is_fin (coeff y 0 0) \<and> \<bar>real_of (coeff y 0 0) - 6698 / 10000\<bar> \<le> 5 / 100000 \<and>
      is_fin (coeff y 0 1) \<and> \<bar>real_of (coeff y 0 1) - 3302 / 10000\<bar> \<le> 5 / 100000 \<and>
      is_fin (coeff y 1 0) \<and> \<bar>real_of (coeff y 1 0) - 3302 / 10000\<bar> \<le> 5 / 100000 \<and>
      is_fin (coeff y 1 1) \<and> \<bar>real_of (coeff y 1 1) - 6698 / 10000\<bar> \<le> 5 / 100000"
proof -
  let ?a = "identity_attention 2 1"
  let ?x = "mat_of_rows 2 2 [[Fin 1, Fin 0], [Fin 0, Fin 1]]"
  have wf: "mha_wf ?a"
    by (simp add: mha_wf_def identity_attention_def identity_def has_shape_def)
  have cx: "cols ?x = mha_d_model ?a"
    by (simp add: mat_of_rows_def identity_attention_def)
  obtain y where y: "MultiHeadAttention_call ?a ?x None = Inr y"
    using MultiHeadAttention_call_shape [OF wf cx, of None] by (auto simp: mask_fits_def)
  obtain Q K V where p: "project ?a ?x = Inr (Q, K, V)"
    using y by (cases "project ?a ?x") (auto simp: MultiHeadAttention_call_def)
  obtain s where s: "attention_scores Q K = Inr s"
      "coeff s 0 0 = Fin (1 / sqrt 2)" "coeff s 0 1 = Fin 0"
      "coeff s 1 0 = Fin 0" "coeff s 1 1 = Fin (1 / sqrt 2)"
    using scenario_scores [OF p] by blast
  have sc: "\<bar>1 / sqrt 2 - 7071 / 10000\<bar> \<le> 5 / 100000"
    using inv_sqrt2_bounds by linarith
  note out = scenario_output [OF y]
  have fin: "is_fin (coeff y 0 0)" "is_fin (coeff y 0 1)" "is_fin (coeff y 1 0)" "is_fin (coeff y 1 1)"
    by (simp_all only: out is_fin_def scalar.case)
  have val: "\<bar>real_of (coeff y 0 0) - 6698 / 10000\<bar> \<le> 5 / 100000"
            "\<bar>real_of (coeff y 0 1) - 3302 / 10000\<bar> \<le> 5 / 100000"
            "\<bar>real_of (coeff y 1 0) - 3302 / 10000\<bar> \<le> 5 / 100000"
            "\<bar>real_of (coeff y 1 1) - 6698 / 10000\<bar> \<le> 5 / 100000"
    using scenario_weights scenario_weights [unfolded add.commute [of exp_inv_sqrt2 1]]
    by (simp_all only: out real_of_def scalar.case)
  show ?thesis
    unfolding Let_def p y s(1) sum.sel fst_conv snd_conv
    using s(2-5) sc out fin val by (simp only: sum.disc simp_thms)
qed

section \<open>A mask of zeros\<close>

text \<open>A score is the result of a division, so adding zero to it changes nothing.\<close>

lemma s_add_rnd_zero: "s_add (rnd r) (Fin 0) = rnd r"
  by (simp add: rnd_def)

lemma s_add_div_zero: "s_add (s_div a b) (Fin 0) = s_div a b"
  by (cases a; cases b) (simp_all add: s_add_rnd_zero)

lemma mapE_cong: "(\<And>x. x \<in> set xs \<Longrightarrow> f x = g x) \<Longrightarrow> mapE f xs = mapE g xs"
  by (induction xs) simp_all

lemma mapE_Inr_set:
  "mapE f xs = Inr ys \<Longrightarrow> y \<in> set ys \<Longrightarrow> \<exists>x\<in>set xs. f x = Inr y"
proof (induction xs arbitrary: ys)
  case Nil
  then show ?case by simp
next
  case (Cons x xs)
  from Cons.prems(1) obtain z zs where z: "f x = Inr z" "mapE f xs = Inr zs" "ys = z # zs"
    by (auto simp: bindE_def split: sum.splits)
  with Cons.prems(2) Cons.IH [of zs] show ?case
    by auto
qed

lemma block_rows: "block a r0 c0 nr nc = Inr b \<Longrightarrow> rows b = nr \<and> cols b = nc"
  by (auto simp: block_def split: if_splits)

lemma split_heads_rows:
  assumes "split_heads a n QKV = Inr hs" "(q, k, v) \<in> set hs"
  shows "rows q = n \<and> rows k = n"
proof -
  obtain Q K V where QKV: "QKV = (Q, K, V)"
    by (cases QKV) auto
  from assms obtain h where
    "bindE (block Q 0 (h * d_k a) n (d_k a)) (\<lambda>q.
     bindE (block K 0 (h * d_k a) n (d_k a)) (\<lambda>k.
     bindE (block V 0 (h * d_v a) n (d_v a)) (\<lambda>v. Inr (q, k, v)))) = Inr (q, k, v)"
    unfolding split_heads_def QKV by (auto dest!: mapE_Inr_set)
  then show ?thesis
    by (auto simp: bindE_def split: sum.splits dest: block_rows)
qed

lemma zero_mask_scores:
  assumes "rows m = rows Q" "cols m = rows K"
      and "\<forall>i<rows Q. \<forall>j<rows K. coeff m i j = Fin 0"
  shows "bindE (attention_scores Q K) (\<lambda>s. apply_mask s (Some m)) = attention_scores Q K"
proof (cases "cols Q = cols K")
  case True
  have "(\<lambda>i j. if i < rows Q \<and> j < rows K
          then s_add (s_div (s_sum (\<lambda>k. s_mul (coeff Q i k) (coeff K j k)) (cols K))
                       (Fin (sqrt (real (cols K))))) (coeff m i j)
          else s_div (s_sum (\<lambda>k. s_mul (coeff Q i k) (coeff K j k)) (cols K))
                       (Fin (sqrt (real (cols K)))))
       = (\<lambda>i j. s_div (s_sum (\<lambda>k. s_mul (coeff Q i k) (coeff K j k)) (cols K))
                       (Fin (sqrt (real (cols K)))))"
    using assms(3) by (auto simp: fun_eq_iff s_add_div_zero)
  then show ?thesis
    using True assms(1,2)
    by (simp add: attention_scores_eq apply_mask_def mat_add_def cong: if_cong)
next
  case False
  then show ?thesis
    by (simp add: attention_scores_mismatch)
qed

lemma zero_mask_attention:
  assumes "rows m = rows Q" "cols m = rows K"
      and "\<forall>i<rows Q. \<forall>j<rows K. coeff m i j = Fin 0"
  shows "scaled_dot_product_attention Q K V (Some m) = scaled_dot_product_attention Q K V None"
proof -
  have "bindE (attention_scores Q K) (\<lambda>s. bindE (apply_mask s (Some m)) softmax)
        = bindE (bindE (attention_scores Q K) (\<lambda>s. apply_mask s (Some m))) softmax"
    by (simp add: bindE_def split: sum.splits)
  also have "\<dots> = bindE (attention_scores Q K) (\<lambda>s. bindE (apply_mask s None) softmax)"
    unfolding zero_mask_scores [OF assms] by (simp add: apply_mask_def)
  finally show ?thesis
    by (simp add: scaled_dot_product_attention_def attention_weights_def)
qed

lemma zero_mask_heads:
  assumes "split_heads a (rows x) QKV = Inr hs"
      and "rows m = rows x" "cols m = rows x"
      and "\<forall>i<rows x. \<forall>j<rows x. coeff m i j = Fin 0"
  shows "attend_heads hs (Some m) = attend_heads hs None"
  unfolding attend_heads_def
proof (rule mapE_cong)
  fix h assume h: "h \<in> set hs"
  obtain q k v where qkv: "h = (q, k, v)"
    by (cases h) auto
  have "rows q = rows x \<and> rows k = rows x"
    using split_heads_rows [OF assms(1)] h qkv by blast
  then have "scaled_dot_product_attention q k v (Some m) = scaled_dot_product_attention q k v None"
    using assms(2-4) by (intro zero_mask_attention) simp_all
  then show "(case h of (q, k, v) \<Rightarrow> scaled_dot_product_attention q k v (Some m))
           = (case h of (q, k, v) \<Rightarrow> scaled_dot_product_attention q k v None)"
    by (simp add: qkv)
qed

text \<open>
  C8: a mask of the shape \<open>[seq_len, seq_len]\<close> that consists entirely of zeros gives
  the same result of the forward pass of the multi-head attention as the absent mask, a
  failure included. The mask of \<^verbatim>\<open>TransformerEncoderBlock::operator()\<close> has no other
  use than this call (line 204).
\<close>

theorem zero_mask_is_no_mask:
  assumes "rows m = rows x" "cols m = rows x"
      and "\<forall>i<rows x. \<forall>j<rows x. coeff m i j = Fin 0"
  shows "MultiHeadAttention_call a x (Some m) = MultiHeadAttention_call a x None"
  unfolding MultiHeadAttention_call_def
  by (auto simp: bindE_def zero_mask_heads [OF _ assms] split: sum.splits)

text \<open>
  Two tokens and the weights of the identity scenario: the call returns, and there a mask
  with one entry \<open>+\<infinity>\<close> does change the result.
\<close>

lemma masked_scenario_output:
  "MultiHeadAttention_call (identity_attention 2 1)
     (mat_of_rows 2 2 [[Fin 1, Fin 0], [Fin 0, Fin 1]])
     (Some (mat_of_rows 2 2 [[Fin 0, PInf], [Fin 0, Fin 0]])) = Inr y \<Longrightarrow>
   coeff y 0 0 = NaN"
  by (auto simp add: call_defs attention_defs matrix_ops numeral_2_eq_2
        s_exp_facts rnd_facts simp del: s_exp.simps(1) cong: if_cong)

theorem zero_mask_is_no_mask_witness:
  "rows (zero_matrix 2 2) = rows (mat_of_rows 2 2 [[Fin 1, Fin 0], [Fin 0, Fin 1]]) \<and>
   cols (zero_matrix 2 2) = rows (mat_of_rows 2 2 [[Fin 1, Fin 0], [Fin 0, Fin 1]]) \<and>
   coeff (zero_matrix 2 2) 0 0 = Fin 0 \<and> coeff (zero_matrix 2 2) 0 1 = Fin 0 \<and>
   coeff (zero_matrix 2 2) 1 0 = Fin 0 \<and> coeff (zero_matrix 2 2) 1 1 = Fin 0 \<and>
   MultiHeadAttention_call (identity_attention 2 1)
       (mat_of_rows 2 2 [[Fin 1, Fin 0], [Fin 0, Fin 1]]) (Some (zero_matrix 2 2))
     = MultiHeadAttention_call (identity_attention 2 1)
       (mat_of_rows 2 2 [[Fin 1, Fin 0], [Fin 0, Fin 1]]) None \<and>
   \<not> isl (MultiHeadAttention_call (identity_attention 2 1)
       (mat_of_rows 2 2 [[Fin 1, Fin 0], [Fin 0, Fin 1]]) None) \<and>
   MultiHeadAttention_call (identity_attention 2 1)
       (mat_of_rows 2 2 [[Fin 1, Fin 0], [Fin 0, Fin 1]])
       (Some (mat_of_rows 2 2 [[Fin 0, PInf], [Fin 0, Fin 0]]))
     \<noteq> MultiHeadAttention_call (identity_attention 2 1)
       (mat_of_rows 2 2 [[Fin 1, Fin 0], [Fin 0, Fin 1]]) None"
proof -
  let ?a = "identity_attention 2 1"
  let ?x = "mat_of_rows 2 2 [[Fin 1, Fin 0], [Fin 0, Fin 1]]"
  let ?z = "zero_matrix 2 2"
  let ?m = "mat_of_rows 2 2 [[Fin 0, PInf], [Fin 0, Fin 0]]"
  have shape: "rows ?z = rows ?x" "cols ?z = rows ?x"
    by (simp_all add: zero_matrix_def mat_of_rows_def)
  have zeros: "\<forall>i<rows ?x. \<forall>j<rows ?x. coeff ?z i j = Fin 0"
    by (simp add: zero_matrix_def)
  have entries: "coeff ?z 0 0 = Fin 0" "coeff ?z 0 1 = Fin 0"
      "coeff ?z 1 0 = Fin 0" "coeff ?z 1 1 = Fin 0"
    by (simp_all add: zero_matrix_def)
  have same: "MultiHeadAttention_call ?a ?x (Some ?z) = MultiHeadAttention_call ?a ?x None"
    using zero_mask_is_no_mask [OF shape zeros] .
  have wf: "mha_wf ?a"
    by (simp add: mha_wf_def identity_attention_def identity_def has_shape_def)
  have cx: "cols ?x = mha_d_model ?a"
    by (simp add: mat_of_rows_def identity_attention_def)
  obtain y where y: "MultiHeadAttention_call ?a ?x None = Inr y"
    using MultiHeadAttention_call_shape [OF wf cx, of None] by (auto simp: mask_fits_def)
  have returns: "\<not> isl (MultiHeadAttention_call ?a ?x None)"
    unfolding y by simp
  have differs: "MultiHeadAttention_call ?a ?x (Some ?m) \<noteq> MultiHeadAttention_call ?a ?x None"
  proof
    assume "MultiHeadAttention_call ?a ?x (Some ?m) = MultiHeadAttention_call ?a ?x None"
    then have "MultiHeadAttention_call ?a ?x (Some ?m) = Inr y"
      unfolding y .
    then have "coeff y 0 0 = NaN"
      by (rule masked_scenario_output)
    moreover have "coeff y 0 0 = Fin (exp_inv_sqrt2 / (exp_inv_sqrt2 + 1))"
      using scenario_output [OF y] by (simp only:)
    ultimately show False
      by simp
  qed
  from shape entries same returns differs show ?thesis
    by (simp only: simp_thms)
qed

section \<open>The denominators of layer normalisation\<close>


















text \<open>The variances that line 176 computes for \<open>[[1, 3], [5, 7]]\<close> are 5 and 5.\<close>

lemma rnd_100: "\<bar>r\<bar> \<le> 100 \<Longrightarrow> rnd r = Fin r"
proof -
  assume "\<bar>r\<bar> \<le> 100"
  moreover have "100 \<le> max_finite"
    unfolding max_finite_def by simp
  ultimately show ?thesis
    by (intro rnd_Fin) linarith
qed

lemma row_var_example:
  "\<not> isl (row_var (mat_of_rows 2 2 [[Fin 1, Fin 3], [Fin 5, Fin 7]])) \<and>
   coeff (projr (row_var (mat_of_rows 2 2 [[Fin 1, Fin 3], [Fin 5, Fin 7]]))) 0 0 = Fin 5 \<and>
   coeff (projr (row_var (mat_of_rows 2 2 [[Fin 1, Fin 3], [Fin 5, Fin 7]]))) 1 0 = Fin 5"
  by (simp add: row_var_def centered_def row_mean_def rowwise_mean_def rowwise_sub_def
      unaryExpr_def square_def s_sub_def mat_of_rows_def numeral_2_eq_2 rnd_100)




section \<open>The statistics of a normalised row\<close>







section \<open>The engine behind the initial weights\<close>

text \<open>The two loops of \<^verbatim>\<open>uniform_init\<close> in closed form.\<close>

lemma uniform_init_row_prefix:
  assumes F: "\<And>j m g. F j (m, g) = (set_coeff m i j (fst (dist R g)), stl g)"
  shows "fold F [0..<n] (m, g) =
     (m\<lparr>coeff := (\<lambda>i' j'. if i' = i \<and> j' < n then fst (dist R (sdrop j' g)) else coeff m i' j')\<rparr>,
      sdrop n g)"
proof (induction n)
  case 0
  show ?case by simp
next
  case (Suc n)
  let ?m = "m\<lparr>coeff := (\<lambda>i' j'. if i' = i \<and> j' < n then fst (dist R (sdrop j' g))
                                else coeff m i' j')\<rparr>"
  have "fold F [0..<Suc n] (m, g) = F n (fold F [0..<n] (m, g))"
    by simp
  also have "\<dots> = F n (?m, sdrop n g)"
    by (simp only: Suc.IH)
  also have "\<dots> = (set_coeff ?m i n (fst (dist R (sdrop n g))), stl (sdrop n g))"
    by (rule F)
  also have "set_coeff ?m i n (fst (dist R (sdrop n g)))
      = m\<lparr>coeff := (\<lambda>i' j'. if i' = i \<and> j' < Suc n then fst (dist R (sdrop j' g))
                              else coeff m i' j')\<rparr>"
    by (auto simp: set_coeff_def fun_eq_iff less_Suc_eq)
  finally show ?case
    by simp
qed

lemma uniform_init_row_eq:
  "uniform_init_row R i (m, g) =
     (m\<lparr>coeff := (\<lambda>i' j'. if i' = i \<and> j' < cols m then fst (dist R (sdrop j' g))
                          else coeff m i' j')\<rparr>,
      sdrop (cols m) g)"
  unfolding uniform_init_row_def fst_conv
  by (rule uniform_init_row_prefix) (simp add: dist_def)

lemma uniform_init_prefix:
  "fold (uniform_init_row R) [0..<n] (m, g) =
     (m\<lparr>coeff := (\<lambda>i j. if i < n \<and> j < cols m then fst (dist R (sdrop (i * cols m + j) g))
                         else coeff m i j)\<rparr>,
      sdrop (n * cols m) g)"
proof (induction n)
  case 0
  show ?case by simp
next
  case (Suc n)
  have "(\<lambda>i' j'. if i' = n \<and> j' < cols m then fst (dist R (sdrop (n * cols m + j') g))
                  else if i' < n \<and> j' < cols m then fst (dist R (sdrop (i' * cols m + j') g))
                  else coeff m i' j')
      = (\<lambda>i j. if i < Suc n \<and> j < cols m then fst (dist R (sdrop (i * cols m + j) g))
                else coeff m i j)"
    by (auto simp: fun_eq_iff less_Suc_eq)
  then show ?case
    by (simp add: Suc.IH uniform_init_row_eq add.commute cong: if_cong)
qed

lemma uniform_init_eq:
  "uniform_init m R g =
     (m\<lparr>coeff := (\<lambda>i j. if i < rows m \<and> j < cols m
                         then fst (dist R (sdrop (i * cols m + j) g)) else coeff m i j)\<rparr>,
      sdrop (rows m * cols m) g)"
  by (simp add: uniform_init_def uniform_init_prefix)

lemma dist_value:
  assumes r: "0 \<le> r" "2 * r \<le> max_finite" and u: "0 \<le> shd g" "shd g < 1"
  shows "fst (dist (Fin r) g) = Fin (shd g * (r - (- r)) + (- r))"
    and "- r \<le> shd g * (r - (- r)) + (- r)" and "shd g * (r - (- r)) + (- r) \<le> r"
proof -
  define w where "w = shd g * (2 * r)"
  have a: "rnd (2 * r) = Fin (2 * r)"
    using r by (intro rnd_Fin) simp
  have "w \<le> 1 * (2 * r)"
    unfolding w_def using u r by (intro mult_right_mono) simp_all
  moreover have "0 \<le> w"
    unfolding w_def using u r by simp
  ultimately have w: "0 \<le> w" "w \<le> 2 * r"
    by simp_all
  have b: "rnd w = Fin w"
    using w r by (intro rnd_Fin) linarith
  have c: "rnd (w - r) = Fin (w - r)"
    using w r by (intro rnd_Fin) linarith
  have "fst (dist (Fin r) g) = Fin (w - r)"
    by (simp add: dist_def s_sub_def a w_def [symmetric] b c)
  then show "fst (dist (Fin r) g) = Fin (shd g * (r - (- r)) + (- r))"
    by (simp add: w_def)
  show "- r \<le> shd g * (r - (- r)) + (- r)" "shd g * (r - (- r)) + (- r) \<le> r"
    using w by (simp_all add: w_def)
qed

text \<open>
  C9, amended: \<^verbatim>\<open>uniform_init\<close> takes a matrix and a bound only. Its result is
  determined by the state of its own static engine: with a bound \<open>r \<ge> 0\<close> whose double
  is finite and an engine that delivers variates of \<open>[0, 1)\<close>, the matrix keeps its
  shape, the element \<open>(i, j)\<close> is the variate number \<open>i * cols + j\<close> of the engine,
  \<open>u\<close>, mapped to \<open>u * (r - (-r)) + (-r)\<close>, every element lies in \<open>[-r, r]\<close>, and the
  engine is left advanced by \<open>rows * cols\<close> variates for the next call.
\<close>

theorem uniform_init_draws:
  assumes r: "0 \<le> r" "2 * r \<le> max_finite"
      and u: "\<forall>k<rows m * cols m. 0 \<le> g !! k \<and> g !! k < 1"
  shows "rows (fst (uniform_init m (Fin r) g)) = rows m \<and>
         cols (fst (uniform_init m (Fin r) g)) = cols m \<and>
         snd (uniform_init m (Fin r) g) = sdrop (rows m * cols m) g \<and>
         (\<forall>i<rows m. \<forall>j<cols m.
            coeff (fst (uniform_init m (Fin r) g)) i j
              = Fin (g !! (i * cols m + j) * (r - (- r)) + (- r)) \<and>
            - r \<le> g !! (i * cols m + j) * (r - (- r)) + (- r) \<and>
            g !! (i * cols m + j) * (r - (- r)) + (- r) \<le> r)"
proof -
  have "fst (dist (Fin r) (sdrop (i * cols m + j) g))
          = Fin (g !! (i * cols m + j) * (r - (- r)) + (- r)) \<and>
        - r \<le> g !! (i * cols m + j) * (r - (- r)) + (- r) \<and>
        g !! (i * cols m + j) * (r - (- r)) + (- r) \<le> r"
    if "i < rows m" "j < cols m" for i j
  proof -
    have "i * cols m + j < rows m * cols m"
    proof -
      have "i * cols m + j < i * cols m + cols m"
        using that(2) by simp
      also have "\<dots> = Suc i * cols m"
        by simp
      also have "\<dots> \<le> rows m * cols m"
        using that(1) by (intro mult_le_mono1) simp
      finally show ?thesis .
    qed
    then have "0 \<le> shd (sdrop (i * cols m + j) g)" "shd (sdrop (i * cols m + j) g) < 1"
      using u by simp_all
    from dist_value [OF r this] show ?thesis
      by simp
  qed
  then show ?thesis
    by (simp add: uniform_init_eq)
qed


lemma halving_engine_sel:
  "shd halving_engine = 1 / 2" "shd (stl halving_engine) = 1 / 4"
  "halving_engine !! 0 = 1 / 2" "halving_engine !! 1 = 1 / 4"
  by (simp_all add: halving_engine_def)

text \<open>
  C9, as the claim states it: the initialisation has no hidden state, so that two
  initialisations of the same shape with the same bound give the same matrix. The
  engine is a static local of \<^verbatim>\<open>uniform_init\<close> and keeps its state from one call to
  the next; no parameter sets it. Two successive initialisations of a matrix of one
  element with the default bound, as the constructors perform them, on an engine whose
  next variates are \<open>1/2\<close> and \<open>1/4\<close>:
\<close>

theorem hidden_engine_counterexample:
  "coeff (fst (uniform_init (uninitialized 1 1) default_init_range halving_engine)) 0 0 = Fin 0 \<and>
   coeff (fst (uniform_init (uninitialized 1 1) default_init_range
            (snd (uniform_init (uninitialized 1 1) default_init_range halving_engine)))) 0 0
     = Fin (- (1 / 20)) \<and>
   fst (uniform_init (uninitialized 1 1) default_init_range halving_engine)
     \<noteq> fst (uniform_init (uninitialized 1 1) default_init_range
            (snd (uniform_init (uninitialized 1 1) default_init_range halving_engine)))"
proof -
  let ?g = "halving_engine"
  let ?m1 = "fst (uniform_init (uninitialized 1 1) default_init_range ?g)"
  let ?m2 = "fst (uniform_init (uninitialized 1 1) default_init_range
                (snd (uniform_init (uninitialized 1 1) default_init_range ?g)))"
  have 1: "coeff ?m1 0 0 = Fin 0"
    by (simp add: uniform_init_eq uninitialized_def dist_def default_init_range_def s_sub_def
        halving_engine_sel rnd_small)
  have 2: "coeff ?m2 0 0 = Fin (- (1 / 20))"
    by (simp add: uniform_init_eq uninitialized_def dist_def default_init_range_def s_sub_def
        halving_engine_sel rnd_small)
  have "coeff ?m1 0 0 \<noteq> coeff ?m2 0 0"
    unfolding 1 2 by simp
  then have "?m1 \<noteq> ?m2"
    by auto
  with 1 2 show ?thesis
    by blast
qed

theorem uniform_init_draws_witness:
  "(0::real) \<le> 1 / 10 \<and> 2 * (1 / 10) \<le> max_finite \<and>
   0 \<le> halving_engine !! 0 \<and> halving_engine !! 0 < 1 \<and>
   0 \<le> halving_engine !! 1 \<and> halving_engine !! 1 < 1 \<and>
   rows (fst (uniform_init (uninitialized 1 2) (Fin (1 / 10)) halving_engine)) = 1 \<and>
   cols (fst (uniform_init (uninitialized 1 2) (Fin (1 / 10)) halving_engine)) = 2 \<and>
   snd (uniform_init (uninitialized 1 2) (Fin (1 / 10)) halving_engine) = sdrop 2 halving_engine \<and>
   coeff (fst (uniform_init (uninitialized 1 2) (Fin (1 / 10)) halving_engine)) 0 0 = Fin 0 \<and>
   coeff (fst (uniform_init (uninitialized 1 2) (Fin (1 / 10)) halving_engine)) 0 1
     = Fin (- (1 / 20))"
proof -
  let ?m = "uninitialized 1 2"
  have s: "rows ?m = 1" "cols ?m = 2"
    by (simp_all add: uninitialized_def)
  have h1: "(0::real) \<le> 1 / 10"
    by simp
  have h2: "2 * (1 / 10) \<le> max_finite"
    using max_finite_ge_1 by simp
  have v: "0 \<le> halving_engine !! 0 \<and> halving_engine !! 0 < 1 \<and>
           0 \<le> halving_engine !! 1 \<and> halving_engine !! 1 < 1"
    by (simp add: halving_engine_sel)
  then have h3: "\<forall>k<rows ?m * cols ?m. 0 \<le> halving_engine !! k \<and> halving_engine !! k < 1"
    unfolding s by (auto simp: less_2_cases_iff)
  note d = uniform_init_draws [OF h1 h2 h3, unfolded s]
  have "coeff (fst (uniform_init ?m (Fin (1 / 10)) halving_engine)) 0 0 = Fin 0"
    using d by (simp add: halving_engine_sel)
  moreover have "coeff (fst (uniform_init ?m (Fin (1 / 10)) halving_engine)) 0 1
      = Fin (- (1 / 20))"
    using d by (simp add: halving_engine_sel)
  ultimately show ?thesis
    using h1 h2 v d by simp
qed

end
